theory Spec2Isabelle
  imports Complex_Main "HOL-Library.AList"
begin

section \<open>Python strings\<close>

text \<open>
  A Python \<^verbatim>\<open>str\<close> is a \<open>string\<close>, one \<open>char\<close> per character; the lines the
  transcoding engine prints and the paths are taken to be ASCII text.  The functions of
  this section are the \<^verbatim>\<open>str\<close> methods the source calls.
\<close>

text \<open>\<^verbatim>\<open>str.isspace\<close> on one ASCII character: space, tab, newline, vertical tab,
  form feed, carriage return and the four separators 0x1C to 0x1F.\<close>

definition is_space :: "char \<Rightarrow> bool" where
  "is_space c = (c = CHR '' '' \<or> c = CHR 0x09 \<or> c = CHR 0x0A \<or> c = CHR 0x0B \<or> c = CHR 0x0C
      \<or> c = CHR 0x0D \<or> c = CHR 0x1C \<or> c = CHR 0x1D \<or> c = CHR 0x1E \<or> c = CHR 0x1F)"

text \<open>\<^verbatim>\<open>s.strip()\<close>\<close>

definition strip :: "string \<Rightarrow> string" where
  "strip s = rev (dropWhile is_space (rev (dropWhile is_space s)))"

text \<open>\<^verbatim>\<open>s.startswith(p)\<close>\<close>

fun startswith :: "string \<Rightarrow> string \<Rightarrow> bool" where
  "startswith s [] = True"
| "startswith [] (p # ps) = False"
| "startswith (c # cs) (p # ps) = (c = p \<and> startswith cs ps)"

text \<open>\<^verbatim>\<open>s.partition(sep)\<close> when \<^verbatim>\<open>sep\<close> occurs in \<^verbatim>\<open>s\<close>: the text before and
  after its first occurrence; \<open>None\<close> when it does not occur.\<close>

fun find_sep :: "string \<Rightarrow> string \<Rightarrow> (string \<times> string) option" where
  "find_sep sep [] = (if sep = [] then Some ([], []) else None)"
| "find_sep sep (c # cs) =
     (if startswith (c # cs) sep then Some ([], drop (length sep) (c # cs))
      else (case find_sep sep cs of None \<Rightarrow> None | Some (b, a) \<Rightarrow> Some (c # b, a)))"

text \<open>\<^verbatim>\<open>sub in s\<close>\<close>

definition contains :: "string \<Rightarrow> string \<Rightarrow> bool" where
  "contains sub s = (find_sep sub s \<noteq> None)"

lemma find_sep_shorter: "sep \<noteq> [] \<Longrightarrow> find_sep sep s = Some (b, a) \<Longrightarrow> length a < length s"
proof (induction s arbitrary: b)
  case Nil
  then show ?case by simp
next
  case (Cons c cs)
  show ?case
  proof (cases "startswith (c # cs) sep")
    case True
    with Cons.prems show ?thesis by auto
  next
    case False
    with Cons.prems obtain b' where "find_sep sep cs = Some (b', a)"
      by (auto split: option.splits)
    with Cons.IH [OF Cons.prems(1)] show ?thesis by fastforce
  qed
qed

text \<open>\<^verbatim>\<open>s.split(sep)\<close> for a non-empty separator (every separator of the source is a
  non-empty literal; Python raises \<^verbatim>\<open>ValueError\<close> on an empty one).\<close>

function split_sep :: "string \<Rightarrow> string \<Rightarrow> string list" where
  "split_sep sep s =
     (if sep = [] then [s]
      else (case find_sep sep s of None \<Rightarrow> [s] | Some (b, a) \<Rightarrow> b # split_sep sep a))"
  by pat_completeness auto
termination
  by (relation "measure (\<lambda>(sep, s). length s)") (auto dest: find_sep_shorter)

declare split_sep.simps [simp del]

text \<open>\<^verbatim>\<open>s.split(sep, 1)\<close>: at most one cut, at the first occurrence.\<close>

definition split_sep1 :: "string \<Rightarrow> string \<Rightarrow> string list" where
  "split_sep1 sep s = (case find_sep sep s of None \<Rightarrow> [s] | Some (b, a) \<Rightarrow> [b, a])"

text \<open>\<^verbatim>\<open>s.split()\<close>: the maximal runs of characters that are not whitespace.\<close>

fun split_ws_acc :: "string \<Rightarrow> string \<Rightarrow> string list" where
  "split_ws_acc word [] = (if word = [] then [] else [rev word])"
| "split_ws_acc word (c # cs) =
     (if is_space c then (if word = [] then split_ws_acc [] cs else rev word # split_ws_acc [] cs)
      else split_ws_acc (c # word) cs)"

definition split_ws :: "string \<Rightarrow> string list" where
  "split_ws s = split_ws_acc [] s"

text \<open>\<^verbatim>\<open>s.lower()\<close> on ASCII text.\<close>

definition lower_char :: "char \<Rightarrow> char" where
  "lower_char c = (let n = (of_char c :: nat) in if 65 \<le> n \<and> n \<le> 90 then char_of (n + 32) else c)"

definition lower :: "string \<Rightarrow> string" where
  "lower s = map lower_char s"

text \<open>\<^verbatim>\<open>sep.join(xs)\<close>\<close>

fun join_str :: "string \<Rightarrow> string list \<Rightarrow> string" where
  "join_str sep [] = []"
| "join_str sep [x] = x"
| "join_str sep (x # y # ys) = x @ sep @ join_str sep (y # ys)"

text \<open>\<^verbatim>\<open>str(n)\<close> and the \<^verbatim>\<open>{n}\<close> of an f-string, for an integer.\<close>

function str_nat :: "nat \<Rightarrow> string" where
  "str_nat n = (if n < 10 then [char_of (48 + n)] else str_nat (n div 10) @ [char_of (48 + n mod 10)])"
  by pat_completeness auto
termination
  by (relation "measure id") auto

declare str_nat.simps [simp del]

definition str_int :: "int \<Rightarrow> string" where
  "str_int i = (if i < 0 then CHR ''-'' # str_nat (nat (- i)) else str_nat (nat i))"

text \<open>
  \<^verbatim>\<open>float(s)\<close> and \<^verbatim>\<open>int(s)\<close> are builtins: the handlers below take them as the
  parameters \<open>pfloat\<close> and \<open>pint\<close>, which return \<open>None\<close> where the builtin raises
  \<^verbatim>\<open>ValueError\<close>.  The two functions that follow read plain decimal literals the way
  the builtins do (surrounding whitespace, a sign, digits, for \<^verbatim>\<open>float\<close> a fraction)
  and serve to run the handlers on concrete lines.
\<close>

type_synonym float_reader = "string \<Rightarrow> real option"
type_synonym int_reader = "string \<Rightarrow> int option"

definition is_digit :: "char \<Rightarrow> bool" where
  "is_digit c = (48 \<le> (of_char c :: nat) \<and> (of_char c :: nat) \<le> 57)"

fun digits_value :: "nat \<Rightarrow> string \<Rightarrow> nat" where
  "digits_value acc [] = acc"
| "digits_value acc (c # cs) = digits_value (10 * acc + (of_char c - 48)) cs"

definition unsigned_decimal :: "string \<Rightarrow> real option" where
  "unsigned_decimal s =
     (let ip = takeWhile is_digit s; rest = dropWhile is_digit s in
      if rest = [] then (if ip = [] then None else Some (real (digits_value 0 ip)))
      else if hd rest = CHR ''.'' \<and> list_all is_digit (tl rest) \<and> (ip \<noteq> [] \<or> tl rest \<noteq> [])
      then Some (real (digits_value 0 ip) + real (digits_value 0 (tl rest)) / 10 ^ length (tl rest))
      else None)"

definition decimal_float :: float_reader where
  "decimal_float s =
     (case strip s of
        [] \<Rightarrow> None
      | c # cs \<Rightarrow>
          if c = CHR ''-'' then map_option uminus (unsigned_decimal cs)
          else if c = CHR ''+'' then unsigned_decimal cs
          else unsigned_decimal (c # cs))"

definition unsigned_int :: "string \<Rightarrow> int option" where
  "unsigned_int s = (if s \<noteq> [] \<and> list_all is_digit s then Some (int (digits_value 0 s)) else None)"

definition decimal_int :: int_reader where
  "decimal_int s =
     (case strip s of
        [] \<Rightarrow> None
      | c # cs \<Rightarrow>
          if c = CHR ''-'' then map_option uminus (unsigned_int cs)
          else if c = CHR ''+'' then unsigned_int cs
          else unsigned_int (c # cs))"

section \<open>Paths\<close>

text \<open>
  \<^verbatim>\<open>os.path\<close> is \<^verbatim>\<open>posixpath\<close> here: \<^verbatim>\<open>basename\<close> is what follows the last slash,
  \<^verbatim>\<open>splitext\<close> cuts at the last dot unless only dots precede it, and \<^verbatim>\<open>join\<close>
  inserts one slash unless the second part is absolute or the first is empty or ends
  with a slash.
\<close>

definition basename :: "string \<Rightarrow> string" where
  "basename p = rev (takeWhile (\<lambda>c. c \<noteq> CHR ''/'') (rev p))"

text \<open>\<^verbatim>\<open>os.path.splitext\<close> of a name without a slash.\<close>

definition splitext :: "string \<Rightarrow> string \<times> string" where
  "splitext p =
     (let ext = rev (takeWhile (\<lambda>c. c \<noteq> CHR ''.'') (rev p));
          root = take (length p - length ext - 1) p in
      if CHR ''.'' \<in> set p \<and> (\<exists>c \<in> set root. c \<noteq> CHR ''.'')
      then (root, CHR ''.'' # ext)
      else (p, []))"

definition path_join :: "string \<Rightarrow> string \<Rightarrow> string" where
  "path_join a b =
     (if startswith b ''/'' then b
      else if a = [] \<or> last a = CHR ''/'' then a @ b
      else a @ ''/'' @ b)"

section \<open>Output paths (main.py)\<close>

text \<open>
  \<^verbatim>\<open>_build_output_path\<close> and \<^verbatim>\<open>_build_convert_output_path\<close>.  The file system is the
  predicate \<open>path_exists\<close> (\<^verbatim>\<open>os.path.exists\<close>), the clock is \<open>now\<close>
  (\<^verbatim>\<open>int(time.time())\<close>).  The loop \<^verbatim>\<open>for index in range(2, 50)\<close> is the recursion
  \<open>numbered_candidate\<close> over \<open>[2..<50]\<close>.
\<close>

fun numbered_candidate :: "(string \<Rightarrow> bool) \<Rightarrow> string \<Rightarrow> string \<Rightarrow> string \<Rightarrow> nat list \<Rightarrow> string option" where
  "numbered_candidate path_exists output_dir safe_base ext [] = None"
| "numbered_candidate path_exists output_dir safe_base ext (index # rest) =
     (let candidate = path_join output_dir (safe_base @ ''-'' @ str_nat index @ ''.'' @ ext) in
      if \<not> path_exists candidate then Some candidate
      else numbered_candidate path_exists output_dir safe_base ext rest)"

definition build_output_path :: "(string \<Rightarrow> bool) \<Rightarrow> int \<Rightarrow> string \<Rightarrow> string \<Rightarrow> string \<Rightarrow> string" where
  "build_output_path path_exists now input_path output_dir output_format =
     (let base = fst (splitext (basename input_path));
          safe_base = base @ ''-compressed'';
          ext = lower output_format;
          output_path = path_join output_dir (safe_base @ ''.'' @ ext) in
      if \<not> path_exists output_path then output_path
      else (case numbered_candidate path_exists output_dir safe_base ext [2..<50] of
              Some candidate \<Rightarrow> candidate
            | None \<Rightarrow> path_join output_dir (safe_base @ ''-'' @ str_int now @ ''.'' @ ext)))"

definition build_convert_output_path :: "(string \<Rightarrow> bool) \<Rightarrow> int \<Rightarrow> string \<Rightarrow> string \<Rightarrow> string \<Rightarrow> string" where
  "build_convert_output_path path_exists now input_path output_dir output_format =
     (let base = fst (splitext (basename input_path));
          safe_base = base @ ''-converted'';
          ext = lower output_format;
          output_path = path_join output_dir (safe_base @ ''.'' @ ext) in
      if \<not> path_exists output_path then output_path
      else (case numbered_candidate path_exists output_dir safe_base ext [2..<50] of
              Some candidate \<Rightarrow> candidate
            | None \<Rightarrow> path_join output_dir (safe_base @ ''-'' @ str_int now @ ''.'' @ ext)))"

text \<open>
  The names the two builders choose from: the base name of the input without its
  extension, the suffix of the kind, a tag (empty, \<open>-2\<close> to \<open>-49\<close>, or the clock) and
  the lowercased format.  \<open>suffixed_output_path\<close> is the common text of the two builders
  with the suffix as a parameter.
\<close>

definition output_name :: "string \<Rightarrow> string \<Rightarrow> string \<Rightarrow> string \<Rightarrow> string \<Rightarrow> string" where
  "output_name input_path output_dir output_format suffix tag =
     path_join output_dir (fst (splitext (basename input_path)) @ suffix @ tag @ ''.'' @ lower output_format)"

definition suffixed_output_path ::
  "string \<Rightarrow> (string \<Rightarrow> bool) \<Rightarrow> int \<Rightarrow> string \<Rightarrow> string \<Rightarrow> string \<Rightarrow> string" where
  "suffixed_output_path suffix path_exists now input_path output_dir output_format =
     (if \<not> path_exists (output_name input_path output_dir output_format suffix [])
      then output_name input_path output_dir output_format suffix []
      else (case numbered_candidate path_exists output_dir
                    (fst (splitext (basename input_path)) @ suffix) (lower output_format) [2..<50] of
              Some candidate \<Rightarrow> candidate
            | None \<Rightarrow> output_name input_path output_dir output_format suffix (''-'' @ str_int now)))"

section \<open>Task registries\<close>

text \<open>
  Each registry of the program (\<^verbatim>\<open>DownloadManager.tasks\<close>, \<^verbatim>\<open>compression_tasks\<close>,
  \<^verbatim>\<open>convert_tasks\<close>) is a Python dict from task identifiers to mutable task objects.
  A dict keeps insertion order, so it is an association list here: \<open>map_of\<close> is
  \<^verbatim>\<open>dict.get\<close>, \<open>AList.update\<close> is item assignment, and a field assignment on the
  object found under a key is an update of that key's entry.  Python floats are
  modelled as real numbers (no rounding, no infinities, no NaN).
\<close>

type_synonym 'a registry = "(string \<times> 'a) list"

datatype http_error = HTTPException (status_code: nat) (detail: string)

datatype py_exception = ValueError | TypeError

text \<open>
  The three dataclasses \<^verbatim>\<open>DownloadTask\<close>, \<^verbatim>\<open>CompressionTask\<close> and \<^verbatim>\<open>ConvertTask\<close>
  share the fields of \<open>Task\<close>; the type of \<open>status\<close> is \<^verbatim>\<open>DownloadStatus\<close>,
  \<^verbatim>\<open>CompressionStatus\<close> or, for a convert task, a plain string.  The two enums share
  member names, so their members are written with the enum's name in front, as in
  the source.
\<close>

datatype DownloadStatus = PENDING | FETCHING_INFO | DOWNLOADING | PROCESSING | COMPLETED | ERROR

datatype CompressionStatus = PENDING | COMPRESSING | COMPLETED | ERROR

text \<open>A value of the dictionary that yt-dlp passes to a progress hook: \<^verbatim>\<open>None\<close>, a number
  or a string.\<close>

datatype pyval = PyNone | PyNum real | PyStr string

record 'st Task =
  task_id :: string
  status :: 'st
  progress :: real
  eta :: string
  error :: "string option"

record DownloadTask = "DownloadStatus Task" +
  url :: string
  speed :: string
  filename :: pyval
  total_bytes :: pyval
  downloaded_bytes :: pyval
  title :: string
  thumbnail :: string

text \<open>\<open>process\<close> is the handle of the spawned engine process; \<open>use_gpu\<close> is the attribute
  that \<^verbatim>\<open>start_compression\<close> adds to a compression task after creating it.\<close>

record 'st MediaTask = "'st Task" +
  input_path :: string
  output_path :: string
  process :: "nat option"
  use_gpu :: "bool option"

type_synonym CompressionTask = "CompressionStatus MediaTask"
type_synonym ConvertTask = "string MediaTask"

text \<open>\<^verbatim>\<open>with lock: task = tasks.get(task_id); if task: task.progress = progress\<close>\<close>

definition set_progress :: "string \<Rightarrow> real \<Rightarrow> ('st, 'm) Task_scheme registry \<Rightarrow> ('st, 'm) Task_scheme registry" where
  "set_progress tid p tasks =
     (case map_of tasks tid of
        Some task \<Rightarrow> AList.update tid (task\<lparr>progress := p\<rparr>) tasks
      | None \<Rightarrow> tasks)"

section \<open>The transcode progress parser (main.py, the two \<^verbatim>\<open>handle_line\<close> closures)\<close>

text \<open>
  The closures share \<^verbatim>\<open>out_time_ms\<close> and \<^verbatim>\<open>last_progress\<close> (and, in
  \<^verbatim>\<open>_run_compression\<close>, \<^verbatim>\<open>log_count\<close>) with the enclosing function; they are the state
  passed in and out.  \<^verbatim>\<open>duration_ms\<close> is the result of the duration probe, \<open>None\<close>
  when it failed.  A handler returns the exception it raises, if any, its variables and
  the registry.  \<^verbatim>\<open>print\<close> is not modelled.
\<close>

record parse_state =
  out_time_ms :: real
  last_progress :: real

record compress_parse_state = parse_state +
  log_count :: nat

text \<open>\<^verbatim>\<open>if duration_ms: progress = min(100.0, (out_time_ms / duration_ms) * 100)
  else: progress = min(99.0, last_progress + step)\<close>, with the step 0.2 or 0.3.\<close>

definition compute_progress :: "int option \<Rightarrow> real \<Rightarrow> real \<Rightarrow> real \<Rightarrow> real" where
  "compute_progress duration_ms out_ms last_p step =
     (case duration_ms of
        Some d \<Rightarrow> if d \<noteq> 0 then min 100 ((out_ms / real_of_int d) * 100) else min 99 (last_p + step)
      | None \<Rightarrow> min 99 (last_p + step))"

text \<open>\<^verbatim>\<open>duration_ms and raw_value > duration_ms * 10\<close>\<close>

definition exceeds_tenfold :: "int option \<Rightarrow> real \<Rightarrow> bool" where
  "exceeds_tenfold duration_ms raw_value =
     (case duration_ms of Some d \<Rightarrow> d \<noteq> 0 \<and> raw_value > real_of_int (d * 10) | None \<Rightarrow> False)"

text \<open>The body of the first \<^verbatim>\<open>try\<close>: \<^verbatim>\<open>line.split("time=")[1].split()[0]\<close>, the unpacking
  into \<^verbatim>\<open>h, m, s\<close> and \<^verbatim>\<open>float(s) + (int(m) * 60) + (int(h) * 3600)\<close>; \<open>None\<close> is any
  exception, which the \<^verbatim>\<open>except Exception: pass\<close> swallows.\<close>

definition time_token :: "float_reader \<Rightarrow> int_reader \<Rightarrow> string \<Rightarrow> real option" where
  "time_token pfloat pint line =
     (case split_sep ''time='' line of
        _ # after # _ \<Rightarrow>
          (case split_ws after of
             time_part # _ \<Rightarrow>
               (case split_sep '':'' time_part of
                  [h, m, s] \<Rightarrow>
                    (case pfloat s of
                       None \<Rightarrow> None
                     | Some sv \<Rightarrow>
                         (case pint m of
                            None \<Rightarrow> None
                          | Some mv \<Rightarrow>
                              (case pint h of
                                 None \<Rightarrow> None
                               | Some hv \<Rightarrow> Some (sv + real_of_int (mv * 60) + real_of_int (hv * 3600)))))
                | _ \<Rightarrow> None)
           | [] \<Rightarrow> None)
      | _ \<Rightarrow> None)"

text \<open>The block \<^verbatim>\<open>if "time=" in line: try: ... except Exception: pass\<close>, the same text in
  both closures.\<close>

definition human_time_line ::
  "float_reader \<Rightarrow> int_reader \<Rightarrow> int option \<Rightarrow> string \<Rightarrow> string \<Rightarrow>
   'a parse_state_scheme \<times> ('st, 'm) Task_scheme registry \<Rightarrow>
   'a parse_state_scheme \<times> ('st, 'm) Task_scheme registry" where
  "human_time_line pfloat pint duration_ms tid line s =
     (case s of (st, tasks) \<Rightarrow>
        if contains ''time='' line then
          (case time_token pfloat pint line of
             None \<Rightarrow> (st, tasks)
           | Some seconds \<Rightarrow>
               (let out_ms = seconds * 1000;
                    p = compute_progress duration_ms out_ms (last_progress st) 0.2
                in (st\<lparr>out_time_ms := out_ms, last_progress := p\<rparr>, set_progress tid p tasks)))
        else (st, tasks))"

text \<open>\<^verbatim>\<open>_run_compression.handle_line\<close>\<close>

definition compression_handle_line ::
  "float_reader \<Rightarrow> int_reader \<Rightarrow> int option \<Rightarrow> string \<Rightarrow> string \<Rightarrow>
   compress_parse_state \<times> CompressionTask registry \<Rightarrow>
   py_exception option \<times> compress_parse_state \<times> CompressionTask registry" where
  "compression_handle_line pfloat pint duration_ms tid line s =
     (case human_time_line pfloat pint duration_ms tid line s of (st0, tasks) \<Rightarrow>
        if \<not> contains ''='' line then
          (None, (if log_count st0 < 40 then st0\<lparr>log_count := log_count st0 + 1\<rparr> else st0), tasks)
        else
          (case split_sep1 ''='' (strip line) of
             [key, val] \<Rightarrow>
               (let st = (if log_count st0 < 20 \<and>
                              key \<in> {''out_time_ms'', ''out_time_us'', ''out_time'', ''progress'', ''total_size''}
                           then st0\<lparr>log_count := log_count st0 + 1\<rparr> else st0)
                in
                if key = ''out_time_ms'' then
                  (case pfloat val of
                     None \<Rightarrow> (None, st, tasks)
                   | Some raw_value \<Rightarrow>
                       (let out_ms = (if exceeds_tenfold duration_ms raw_value then raw_value / 1000 else raw_value);
                            p = compute_progress duration_ms out_ms (last_progress st) 0.2
                        in (None, st\<lparr>out_time_ms := out_ms, last_progress := p\<rparr>, set_progress tid p tasks)))
                else if key = ''out_time_us'' then
                  (case pfloat val of
                     None \<Rightarrow> (None, st, tasks)
                   | Some raw_value \<Rightarrow>
                       (let out_ms = raw_value / 1000;
                            p = compute_progress duration_ms out_ms (last_progress st) 0.2
                        in (None, st\<lparr>out_time_ms := out_ms, last_progress := p\<rparr>, set_progress tid p tasks)))
                else if key = ''out_time'' then
                  (case split_sep '':'' val of
                     [hours, minutes, seconds] \<Rightarrow>
                       (case pfloat seconds of
                          None \<Rightarrow> (None, st, tasks)
                        | Some seconds_part \<Rightarrow>
                            (case pfloat minutes of
                               None \<Rightarrow> (None, st, tasks)
                             | Some minutes_part \<Rightarrow>
                                 (case pfloat hours of
                                    None \<Rightarrow> (None, st, tasks)
                                  | Some hours_part \<Rightarrow>
                                      (let out_ms = ((hours_part * 3600) + (minutes_part * 60) + seconds_part) * 1000;
                                           p = compute_progress duration_ms out_ms (last_progress st) 0.2
                                       in (None, st\<lparr>out_time_ms := out_ms, last_progress := p\<rparr>,
                                           set_progress tid p tasks)))))
                   | _ \<Rightarrow> (None, st, tasks))
                else if key = ''progress'' \<and> val = ''continue'' then
                  (if duration_ms = None \<or> duration_ms = Some 0 then
                     (let p = min 99 (last_progress st + 0.3)
                      in (None, st\<lparr>last_progress := p\<rparr>, set_progress tid p tasks))
                   else (None, st, tasks))
                else (None, st, tasks))
           | _ \<Rightarrow> (Some ValueError, st0, tasks)))"

text \<open>\<^verbatim>\<open>_run_convert.handle_line\<close>\<close>

definition convert_handle_line ::
  "float_reader \<Rightarrow> int_reader \<Rightarrow> int option \<Rightarrow> string \<Rightarrow> string \<Rightarrow>
   parse_state \<times> ConvertTask registry \<Rightarrow>
   py_exception option \<times> parse_state \<times> ConvertTask registry" where
  "convert_handle_line pfloat pint duration_ms tid line s =
     (case human_time_line pfloat pint duration_ms tid line s of (st, tasks) \<Rightarrow>
        if \<not> contains ''='' line then (None, st, tasks)
        else
          (case split_sep1 ''='' (strip line) of
             [key, val] \<Rightarrow>
               (case (if key = ''out_time_ms'' then
                        (case pfloat val of
                           None \<Rightarrow> None
                         | Some raw_value \<Rightarrow>
                             Some (st\<lparr>out_time_ms :=
                                     (if exceeds_tenfold duration_ms raw_value then raw_value / 1000
                                      else raw_value)\<rparr>))
                      else if key = ''out_time_us'' then
                        (case pfloat val of
                           None \<Rightarrow> None
                         | Some raw_value \<Rightarrow> Some (st\<lparr>out_time_ms := raw_value / 1000\<rparr>))
                      else Some st) of
                  None \<Rightarrow> (None, st, tasks)
                | Some st' \<Rightarrow>
                    if key \<in> {''out_time_ms'', ''out_time_us'', ''out_time''} then
                      (let p = compute_progress duration_ms (out_time_ms st') (last_progress st') 0.2
                       in (None, st'\<lparr>last_progress := p\<rparr>, set_progress tid p tasks))
                    else (None, st', tasks))
           | _ \<Rightarrow> (Some ValueError, st, tasks)))"

section \<open>The terminal write of the process runner (main.py)\<close>

text \<open>
  The last block of \<^verbatim>\<open>_run_compression\<close> and of \<^verbatim>\<open>_run_convert\<close>, entered after
  \<^verbatim>\<open>process.wait()\<close>: \<open>returncode\<close> is \<^verbatim>\<open>process.returncode\<close>, \<open>last_error_lines\<close>
  the stripped lines read from standard error.
\<close>

definition error_tail :: "string list \<Rightarrow> string" where
  "error_tail last_error_lines = join_str [CHR 0x0A] (drop (length last_error_lines - 5) last_error_lines)"

definition compression_finish :: "string \<Rightarrow> int \<Rightarrow> string list \<Rightarrow> CompressionTask registry \<Rightarrow> CompressionTask registry" where
  "compression_finish tid returncode last_error_lines tasks =
     (case map_of tasks tid of
        None \<Rightarrow> tasks
      | Some task \<Rightarrow>
          if error task = Some ''Cancelled by user'' then tasks
          else if returncode = 0 then
            AList.update tid (task\<lparr>status := CompressionStatus.COMPLETED, progress := 100\<rparr>) tasks
          else
            (let tail = error_tail last_error_lines in
             AList.update tid
               (task\<lparr>status := CompressionStatus.ERROR,
                     error := Some (if tail \<noteq> [] then tail else ''Error al comprimir el video.'')\<rparr>) tasks))"

definition convert_finish :: "string \<Rightarrow> int \<Rightarrow> string list \<Rightarrow> ConvertTask registry \<Rightarrow> ConvertTask registry" where
  "convert_finish tid returncode last_error_lines tasks =
     (case map_of tasks tid of
        None \<Rightarrow> tasks
      | Some task \<Rightarrow>
          if error task = Some ''Cancelled by user'' then tasks
          else if returncode = 0 then
            AList.update tid (task\<lparr>status := ''completed'', progress := 100\<rparr>) tasks
          else
            (let tail = error_tail last_error_lines in
             AList.update tid
               (task\<lparr>status := ''error'',
                     error := Some (if tail \<noteq> [] then tail else ''Error al convertir.'')\<rparr>) tasks))"

section \<open>The download manager (downloader.py)\<close>

text \<open>
  The dictionary of a progress hook is an association list of \<open>pyval\<close>s.  Two renderings
  of a number are left to the parameter \<open>F\<close>: \<^verbatim>\<open>f"{x:.1f}"\<close> and \<^verbatim>\<open>str(x)\<close>.
\<close>

record py_format =
  fmt_1f :: "real \<Rightarrow> string"
  str_num :: "real \<Rightarrow> string"

text \<open>\<^verbatim>\<open>d.get(key, default)\<close>\<close>

definition dict_get :: "(string \<times> pyval) list \<Rightarrow> string \<Rightarrow> pyval \<Rightarrow> pyval" where
  "dict_get d key dflt = (case map_of d key of Some v \<Rightarrow> v | None \<Rightarrow> dflt)"

text \<open>The truth value of a Python value, and \<^verbatim>\<open>a or b\<close>.\<close>

definition truthy :: "pyval \<Rightarrow> bool" where
  "truthy v = (case v of PyNone \<Rightarrow> False | PyNum x \<Rightarrow> x \<noteq> 0 | PyStr s \<Rightarrow> s \<noteq> [])"

definition py_or :: "pyval \<Rightarrow> pyval \<Rightarrow> pyval" where
  "py_or a b = (if truthy a then a else b)"

text \<open>\<^verbatim>\<open>str(v)\<close>\<close>

definition py_str :: "py_format \<Rightarrow> pyval \<Rightarrow> string" where
  "py_str F v = (case v of PyNone \<Rightarrow> ''None'' | PyNum x \<Rightarrow> str_num F x | PyStr s \<Rightarrow> s)"

text \<open>\<^verbatim>\<open>DownloadManager._format_speed\<close>; the loop
  \<^verbatim>\<open>while speed >= 1024 and unit_index < len(units) - 1\<close> is \<open>scale_speed\<close>.\<close>

function scale_speed :: "real \<Rightarrow> nat \<Rightarrow> real \<times> nat" where
  "scale_speed speed_value unit_index =
     (if speed_value \<ge> 1024 \<and> unit_index < 3 then scale_speed (speed_value / 1024) (unit_index + 1)
      else (speed_value, unit_index))"
  by pat_completeness auto
termination
  by (relation "measure (\<lambda>(speed_value, unit_index). 3 - unit_index)") auto

declare scale_speed.simps [simp del]

definition format_speed :: "py_format \<Rightarrow> pyval \<Rightarrow> py_exception + string" where
  "format_speed F speed_value =
     (case speed_value of
        PyNone \<Rightarrow> Inr ''0 B/s''
      | PyStr s \<Rightarrow> if s = [] then Inr ''0 B/s'' else Inl TypeError
      | PyNum x \<Rightarrow>
          if x = 0 then Inr ''0 B/s''
          else (case scale_speed x 0 of
                  (v, unit_index) \<Rightarrow>
                    Inr (fmt_1f F v @ '' '' @ [''B/s'', ''KB/s'', ''MB/s'', ''GB/s''] ! unit_index)))"

text \<open>\<^verbatim>\<open>DownloadManager._format_eta\<close>; \<^verbatim>\<open>int(eta)\<close> truncates a number towards zero and
  parses a string.\<close>

definition format_eta :: "int_reader \<Rightarrow> pyval \<Rightarrow> py_exception + string" where
  "format_eta pint eta_value =
     (if \<not> truthy eta_value then Inr ''N/A''
      else
        (case (case eta_value of
                 PyNum x \<Rightarrow> Some (if x \<ge> 0 then \<lfloor>x\<rfloor> else \<lceil>x\<rceil>)
               | PyStr s \<Rightarrow> pint s
               | PyNone \<Rightarrow> None) of
           None \<Rightarrow> Inl ValueError
         | Some whole \<Rightarrow>
             (let seconds = whole mod 60;
                  hours = (whole div 60) div 60;
                  minutes = (whole div 60) mod 60
              in if hours \<noteq> 0 then
                   Inr (str_int hours @ ''h '' @ str_int minutes @ ''m '' @ str_int seconds @ ''s'')
                 else if minutes \<noteq> 0 then Inr (str_int minutes @ ''m '' @ str_int seconds @ ''s'')
                 else Inr (str_int seconds @ ''s''))))"

text \<open>\<^verbatim>\<open>if task.total_bytes > 0: task.progress = (task.downloaded_bytes / task.total_bytes) * 100\<close>;
  comparing or dividing a value that is not a number raises \<^verbatim>\<open>TypeError\<close>.\<close>

definition hook_ratio :: "DownloadTask \<Rightarrow> py_exception + DownloadTask" where
  "hook_ratio task =
     (case total_bytes task of
        PyNum total_n \<Rightarrow>
          if total_n > 0 then
            (case downloaded_bytes task of
               PyNum downloaded_n \<Rightarrow> Inr (task\<lparr>progress := (downloaded_n / total_n) * 100\<rparr>)
             | _ \<Rightarrow> Inl TypeError)
          else Inr task
      | _ \<Rightarrow> Inl TypeError)"

text \<open>
  \<^verbatim>\<open>DownloadManager._progress_hook\<close>: the exception raised, if any, and the registry.  An
  exception leaves the fields assigned before it.  No caller of \<^verbatim>\<open>start_download\<close>
  passes a callback, so the final notification never runs.
\<close>

definition progress_hook ::
  "py_format \<Rightarrow> int_reader \<Rightarrow> string \<Rightarrow> (string \<times> pyval) list \<Rightarrow> DownloadTask registry \<Rightarrow>
   py_exception option \<times> DownloadTask registry" where
  "progress_hook F pint tid d tasks =
     (case map_of tasks tid of
        None \<Rightarrow> (None, tasks)
      | Some task \<Rightarrow>
          (let st = dict_get d ''status'' (PyStr '''') in
           if st = PyStr ''downloading'' then
             (let t1 = task\<lparr>status := DownloadStatus.DOWNLOADING,
                            downloaded_bytes := dict_get d ''downloaded_bytes'' (PyNum 0),
                            total_bytes := py_or (dict_get d ''total_bytes'' PyNone)
                                                 (dict_get d ''total_bytes_estimate'' (PyNum 0))\<rparr>
              in case hook_ratio t1 of
                   Inl e \<Rightarrow> (Some e, AList.update tid t1 tasks)
                 | Inr t2 \<Rightarrow>
                     (case format_speed F (dict_get d ''speed'' PyNone) of
                        Inl e \<Rightarrow> (Some e, AList.update tid t2 tasks)
                      | Inr sp \<Rightarrow>
                          (case format_eta pint (dict_get d ''eta'' PyNone) of
                             Inl e \<Rightarrow> (Some e, AList.update tid (t2\<lparr>speed := sp\<rparr>) tasks)
                           | Inr et \<Rightarrow>
                               (None, AList.update tid
                                  (t2\<lparr>speed := sp, eta := et,
                                      filename := dict_get d ''filename'' (PyStr '''')\<rparr>) tasks))))
           else if st = PyStr ''finished'' then
             (None, AList.update tid
                (task\<lparr>status := DownloadStatus.PROCESSING, progress := 100,
                      filename := dict_get d ''filename'' (PyStr '''')\<rparr>) tasks)
           else if st = PyStr ''error'' then
             (None, AList.update tid
                (task\<lparr>status := DownloadStatus.ERROR,
                      error := Some (py_str F (dict_get d ''error'' (PyStr ''Unknown error'')))\<rparr>) tasks)
           else (None, tasks)))"

text \<open>\<^verbatim>\<open>DownloadManager.cancel_task\<close>: the flag returned, and the registry.\<close>

definition cancel_task :: "string \<Rightarrow> DownloadTask registry \<Rightarrow> bool \<times> DownloadTask registry" where
  "cancel_task tid tasks =
     (case map_of tasks tid of
        Some task \<Rightarrow>
          if status task \<in> {DownloadStatus.PENDING, DownloadStatus.DOWNLOADING}
          then (True, AList.update tid
                  (task\<lparr>status := DownloadStatus.ERROR, error := Some ''Cancelled by user''\<rparr>) tasks)
          else (False, tasks)
      | None \<Rightarrow> (False, tasks))"

text \<open>The endpoint \<^verbatim>\<open>DELETE /cancel/{task_id}\<close> of main.py: the response, and the registry.\<close>

definition cancel_download ::
  "string \<Rightarrow> DownloadTask registry \<Rightarrow> (http_error + (string \<times> string) list) \<times> DownloadTask registry" where
  "cancel_download tid tasks =
     (case cancel_task tid tasks of
        (success, tasks') \<Rightarrow>
          if \<not> success then (Inl (HTTPException 400 ''Cannot cancel this task''), tasks')
          else (Inr [(''status'', ''cancelled''), (''task_id'', tid)], tasks'))"

section \<open>Locks and blocking calls\<close>

text \<open>
  What a thread does to the three registry locks (\<^verbatim>\<open>DownloadManager._lock\<close>,
  \<^verbatim>\<open>compression_lock\<close>, \<^verbatim>\<open>convert_lock\<close>) and which external operations it starts,
  in program order: a \<^verbatim>\<open>with lock:\<close> block is an \<open>Acquire\<close>, its body, and a \<open>Release\<close>.
\<close>

datatype lock = manager_lock | compression_lock | convert_lock

datatype call =
    extract_info_prefetch
  | extract_info_download
  | duration_probe
  | popen
  | process_wait
  | process_terminate
  | process_kill

datatype event = Acquire lock | Release lock | Call call

text \<open>The blocking operations: the pre-fetch of the metadata, the engine's download and
  \<^verbatim>\<open>process.wait()\<close>.\<close>

definition blocking :: "call \<Rightarrow> bool" where
  "blocking c = (c = extract_info_prefetch \<or> c = extract_info_download \<or> c = process_wait)"

text \<open>\<open>lock_free held es\<close>: no blocking operation of \<open>es\<close> starts while a lock is held,
  \<open>held\<close> being the locks held at the start.\<close>

fun lock_free :: "lock list \<Rightarrow> event list \<Rightarrow> bool" where
  "lock_free held [] = True"
| "lock_free held (Acquire l # es) = lock_free (l # held) es"
| "lock_free held (Release l # es) = lock_free (remove1 l held) es"
| "lock_free held (Call c # es) = ((if blocking c then held = [] else True) \<and> lock_free held es)"

text \<open>
  \<^verbatim>\<open>DownloadManager._download_worker\<close>: the status write, the pre-fetch, the download,
  during which the engine calls the progress hook \<open>n\<close> times on this thread, and the
  final write (\<^verbatim>\<open>COMPLETED\<close>, or \<^verbatim>\<open>ERROR\<close> in the \<^verbatim>\<open>except\<close> block).  When
  \<^verbatim>\<open>os.makedirs\<close> raises, the worker goes from the first write to the \<^verbatim>\<open>except\<close> block.
\<close>

definition download_worker_events :: "bool \<Rightarrow> nat \<Rightarrow> event list" where
  "download_worker_events makedirs_ok n =
     [Acquire manager_lock, Release manager_lock]
     @ (if makedirs_ok then
          [Call extract_info_prefetch, Call extract_info_download]
          @ concat (replicate n [Acquire manager_lock, Release manager_lock])
        else [])
     @ [Acquire manager_lock, Release manager_lock]"

text \<open>
  The main thread of \<^verbatim>\<open>_run_compression\<close>: without the engine binary, one write; otherwise
  the duration probe, the read of \<^verbatim>\<open>use_gpu\<close>, the write of \<^verbatim>\<open>COMPRESSING\<close>, the spawn, the
  write of the process handle, \<^verbatim>\<open>process.wait()\<close> and the terminal write.  The two reader
  threads are other threads.
\<close>

definition run_compression_events :: "bool \<Rightarrow> event list" where
  "run_compression_events ffmpeg_found =
     (if \<not> ffmpeg_found then [Acquire compression_lock, Release compression_lock]
      else [Call duration_probe,
            Acquire compression_lock, Release compression_lock,
            Acquire compression_lock, Release compression_lock,
            Call popen,
            Acquire compression_lock, Release compression_lock,
            Call process_wait,
            Acquire compression_lock, Release compression_lock])"

text \<open>The main thread of \<^verbatim>\<open>_run_convert\<close>.\<close>

definition run_convert_events :: "bool \<Rightarrow> event list" where
  "run_convert_events ffmpeg_found =
     (if \<not> ffmpeg_found then [Acquire convert_lock, Release convert_lock]
      else [Call duration_probe,
            Acquire convert_lock, Release convert_lock,
            Call popen,
            Acquire convert_lock, Release convert_lock,
            Call process_wait,
            Acquire convert_lock, Release convert_lock])"

section \<open>Compression and conversion endpoints (main.py)\<close>

text \<open>The scan of \<^verbatim>\<open>start_compression\<close>:
  \<^verbatim>\<open>for existing in compression_tasks.values(): if existing.status == COMPRESSING\<close>.\<close>

definition compression_running :: "CompressionTask registry \<Rightarrow> bool" where
  "compression_running tasks =
     list_ex (\<lambda>existing. status existing = CompressionStatus.COMPRESSING) (map snd tasks)"

text \<open>\<^verbatim>\<open>CompressionTask(task_id=task_id, input_path=input_path, output_path="")\<close> with the
  defaults of the dataclass, and the attribute \<^verbatim>\<open>use_gpu = bool(request.use_gpu)\<close>.\<close>

definition new_compression_task :: "string \<Rightarrow> string \<Rightarrow> bool option \<Rightarrow> CompressionTask" where
  "new_compression_task tid path request_use_gpu =
     \<lparr>task_id = tid, status = CompressionStatus.PENDING, progress = 0, eta = ''N/A'', error = None,
      input_path = path, output_path = '''', process = None,
      use_gpu = Some (request_use_gpu = Some True)\<rparr>"

text \<open>
  \<^verbatim>\<open>start_compression\<close>, the endpoint \<^verbatim>\<open>POST /compress\<close>.  \<open>isfile\<close> is \<^verbatim>\<open>os.path.isfile\<close>,
  \<open>tid\<close> the identifier drawn from \<^verbatim>\<open>uuid4\<close>, \<open>path\<close> the expanded input path.  The result is
  the events of the handler, its response and the registry; the runner it schedules is
  a thread of its own.
\<close>

definition start_compression ::
  "(string \<Rightarrow> bool) \<Rightarrow> string \<Rightarrow> string \<Rightarrow> bool option \<Rightarrow> CompressionTask registry \<Rightarrow>
   event list \<times> (http_error + (string \<times> string) list) \<times> CompressionTask registry" where
  "start_compression isfile tid path request_use_gpu tasks =
     (if \<not> isfile path then ([], Inl (HTTPException 400 ''Archivo de entrada no encontrado''), tasks)
      else if compression_running tasks then
        ([Acquire compression_lock, Release compression_lock],
         Inl (HTTPException 409 ''Ya hay una compresion en curso''), tasks)
      else
        ([Acquire compression_lock, Release compression_lock,
          Acquire compression_lock, Release compression_lock],
         Inr [(''task_id'', tid), (''status'', ''started''),
              (''message'', ''Compression initiated. Track with /compress/status/{task_id}'')],
         AList.update tid (new_compression_task tid path request_use_gpu) tasks))"

text \<open>The runner's write before the spawn:
  \<^verbatim>\<open>task.output_path = output_path; task.status = CompressionStatus.COMPRESSING\<close>.\<close>

definition begin_compression :: "string \<Rightarrow> string \<Rightarrow> CompressionTask registry \<Rightarrow> CompressionTask registry" where
  "begin_compression tid path tasks =
     (case map_of tasks tid of
        Some task \<Rightarrow>
          AList.update tid (task\<lparr>output_path := path, status := CompressionStatus.COMPRESSING\<rparr>) tasks
      | None \<Rightarrow> tasks)"

text \<open>
  \<^verbatim>\<open>cancel_compression\<close>, the endpoint \<^verbatim>\<open>DELETE /compress/cancel/{task_id}\<close>.
  \<open>exits_in_time\<close> tells whether \<^verbatim>\<open>task.process.wait(timeout=5)\<close> returns; when it raises,
  the bare \<^verbatim>\<open>except\<close> kills the process.  An exception raised inside the \<^verbatim>\<open>with\<close> block
  releases the lock.
\<close>

definition stop_process :: "nat option \<Rightarrow> bool \<Rightarrow> event list" where
  "stop_process handle exits_in_time =
     (case handle of
        None \<Rightarrow> []
      | Some pid \<Rightarrow>
          [Call process_terminate, Call process_wait] @ (if exits_in_time then [] else [Call process_kill]))"

definition cancel_compression ::
  "bool \<Rightarrow> string \<Rightarrow> CompressionTask registry \<Rightarrow>
   event list \<times> (http_error + (string \<times> string) list) \<times> CompressionTask registry" where
  "cancel_compression exits_in_time tid tasks =
     (case map_of tasks tid of
        None \<Rightarrow>
          ([Acquire compression_lock, Release compression_lock],
           Inl (HTTPException 404 ''Task not found''), tasks)
      | Some task \<Rightarrow>
          if status task \<noteq> CompressionStatus.COMPRESSING then
            ([Acquire compression_lock, Release compression_lock],
             Inl (HTTPException 400 ''Cannot cancel this task''), tasks)
          else
            ([Acquire compression_lock] @ stop_process (process task) exits_in_time
               @ [Release compression_lock],
             Inr [(''status'', ''cancelled''), (''task_id'', tid)],
             AList.update tid
               (task\<lparr>status := CompressionStatus.ERROR, error := Some ''Cancelled by user''\<rparr>) tasks))"

text \<open>\<^verbatim>\<open>cancel_convert\<close>, the endpoint \<^verbatim>\<open>DELETE /convert/cancel/{task_id}\<close>.\<close>

definition cancel_convert ::
  "bool \<Rightarrow> string \<Rightarrow> ConvertTask registry \<Rightarrow>
   event list \<times> (http_error + (string \<times> string) list) \<times> ConvertTask registry" where
  "cancel_convert exits_in_time tid tasks =
     (case map_of tasks tid of
        None \<Rightarrow>
          ([Acquire convert_lock, Release convert_lock],
           Inl (HTTPException 404 ''Task not found''), tasks)
      | Some task \<Rightarrow>
          if status task \<noteq> ''processing'' then
            ([Acquire convert_lock, Release convert_lock],
             Inl (HTTPException 400 ''Cannot cancel this task''), tasks)
          else
            ([Acquire convert_lock] @ stop_process (process task) exits_in_time
               @ [Release convert_lock],
             Inr [(''status'', ''cancelled''), (''task_id'', tid)],
             AList.update tid (task\<lparr>status := ''error'', error := Some ''Cancelled by user''\<rparr>) tasks))"

section \<open>Event streams (main.py)\<close>

text \<open>
  The generators of \<^verbatim>\<open>task_events\<close> and \<^verbatim>\<open>compression_events\<close> are one loop.  At every
  tick it looks the task up and returns if it is gone; it builds the data dictionary
  from the fields of the task object and yields it; when it is resumed it reads
  \<^verbatim>\<open>task.status\<close> from the same object again and returns if that status is terminal;
  otherwise it sleeps.  The object is the registry's own, which the worker changes in
  place, so what the generator reads before the yield and what it reads after it are
  two readings: \<open>poll k = Some (seen, later)\<close> gives, for the \<open>k\<close>-th tick, the task as
  read for the dictionary and the task as it is when the status is read again;
  \<open>poll k = None\<close> says that the lookup of tick \<open>k\<close> finds no task.  Ticks count from 1.
  The loop need not end, so its result is an option: the list of the events emitted
  when the generator returns.
\<close>

partial_function (option) event_loop ::
  "('t \<Rightarrow> bool) \<Rightarrow> ('t \<Rightarrow> 'e) \<Rightarrow> (nat \<Rightarrow> ('t \<times> 't) option) \<Rightarrow> nat \<Rightarrow> 'e list \<Rightarrow> 'e list option" where
  "event_loop terminal snapshot poll k emitted =
     (case poll k of
        None \<Rightarrow> Some emitted
      | Some (seen, later) \<Rightarrow>
          if terminal later then Some (emitted @ [snapshot seen])
          else event_loop terminal snapshot poll (k + 1) (emitted @ [snapshot seen]))"

text \<open>\<^verbatim>\<open>status.value\<close>\<close>

fun download_status_value :: "DownloadStatus \<Rightarrow> string" where
  "download_status_value DownloadStatus.PENDING = ''pending''"
| "download_status_value DownloadStatus.FETCHING_INFO = ''fetching_info''"
| "download_status_value DownloadStatus.DOWNLOADING = ''downloading''"
| "download_status_value DownloadStatus.PROCESSING = ''processing''"
| "download_status_value DownloadStatus.COMPLETED = ''completed''"
| "download_status_value DownloadStatus.ERROR = ''error''"

fun compression_status_value :: "CompressionStatus \<Rightarrow> string" where
  "compression_status_value CompressionStatus.PENDING = ''pending''"
| "compression_status_value CompressionStatus.COMPRESSING = ''compressing''"
| "compression_status_value CompressionStatus.COMPLETED = ''completed''"
| "compression_status_value CompressionStatus.ERROR = ''error''"

text \<open>An event is its name and its data; the data dictionary is kept as it is before
  \<^verbatim>\<open>json.dumps\<close>.\<close>

type_synonym sse_event = "string \<times> (string \<times> pyval) list"

definition opt_str :: "string option \<Rightarrow> pyval" where
  "opt_str v = (case v of None \<Rightarrow> PyNone | Some s \<Rightarrow> PyStr s)"

definition download_snapshot :: "DownloadTask \<Rightarrow> sse_event" where
  "download_snapshot task =
     (''progress'',
      [(''task_id'', PyStr (task_id task)),
       (''status'', PyStr (download_status_value (status task))),
       (''progress'', PyNum (progress task)),
       (''speed'', PyStr (speed task)),
       (''eta'', PyStr (eta task)),
       (''filename'', filename task),
       (''title'', PyStr (title task)),
       (''error'', opt_str (error task))])"

definition compression_snapshot :: "CompressionTask \<Rightarrow> sse_event" where
  "compression_snapshot task =
     (''progress'',
      [(''task_id'', PyStr (task_id task)),
       (''status'', PyStr (compression_status_value (status task))),
       (''progress'', PyNum (progress task)),
       (''eta'', PyStr (eta task)),
       (''output_path'', PyStr (output_path task)),
       (''error'', opt_str (error task))])"

text \<open>The endpoints: \<open>first\<close> is what the endpoint's own lookup finds, before the
  generator is made; without a task it answers 404.\<close>

definition task_events ::
  "DownloadTask option \<Rightarrow> (nat \<Rightarrow> (DownloadTask \<times> DownloadTask) option) \<Rightarrow>
   http_error + sse_event list option" where
  "task_events first poll =
     (case first of
        None \<Rightarrow> Inl (HTTPException 404 ''Task not found'')
      | Some task \<Rightarrow>
          Inr (event_loop (\<lambda>later. status later \<in> {DownloadStatus.COMPLETED, DownloadStatus.ERROR})
                 download_snapshot poll 1 []))"

definition compression_events ::
  "CompressionTask option \<Rightarrow> (nat \<Rightarrow> (CompressionTask \<times> CompressionTask) option) \<Rightarrow>
   http_error + sse_event list option" where
  "compression_events first poll =
     (case first of
        None \<Rightarrow> Inl (HTTPException 404 ''Task not found'')
      | Some task \<Rightarrow>
          Inr (event_loop (\<lambda>later. status later \<in> {CompressionStatus.COMPLETED, CompressionStatus.ERROR})
                 compression_snapshot poll 1 []))"

section \<open>Sample values\<close>

text \<open>Tasks, registries and parse states on which the theorems below are run.\<close>

definition sample_download :: "DownloadStatus \<Rightarrow> DownloadTask" where
  "sample_download st =
     \<lparr>task_id = ''d1'', status = st, progress = 0, eta = ''N/A'', error = None,
      url = ''https://example.org/v'', speed = ''0 B/s'', filename = PyStr '''',
      total_bytes = PyNum 0, downloaded_bytes = PyNum 0, title = '''', thumbnail = ''''\<rparr>"

definition sample_compression :: CompressionTask where
  "sample_compression =
     \<lparr>task_id = ''c1'', status = CompressionStatus.COMPRESSING, progress = 0, eta = ''N/A'', error = None,
      input_path = ''/v/clip.mov'', output_path = ''/v/clip-compressed.mp4'', process = Some 1,
      use_gpu = Some False\<rparr>"

definition sample_convert :: ConvertTask where
  "sample_convert =
     \<lparr>task_id = ''v1'', status = ''processing'', progress = 0, eta = ''N/A'', error = None,
      input_path = ''/v/clip.mov'', output_path = ''/v/clip-converted.mkv'', process = Some 2,
      use_gpu = None\<rparr>"

definition fresh_state :: compress_parse_state where
  "fresh_state = \<lparr>out_time_ms = 0, last_progress = 0, log_count = 0\<rparr>"

definition fresh_convert_state :: parse_state where
  "fresh_convert_state = \<lparr>out_time_ms = 0, last_progress = 0\<rparr>"

definition sample_format :: py_format where
  "sample_format = \<lparr>fmt_1f = (\<lambda>x. ''0.0''), str_num = (\<lambda>x. ''0'')\<rparr>"

section \<open>Properties of the output paths\<close>

lemma numbered_candidate_None:
  "(numbered_candidate ex d sb e xs = None) =
     (\<forall>i \<in> set xs. ex (path_join d (sb @ ''-'' @ str_nat i @ ''.'' @ e)))"
  by (induction xs) (auto simp: Let_def)

lemma numbered_candidate_not_exists:
  "numbered_candidate ex d sb e xs = Some c \<Longrightarrow> \<not> ex c"
  by (induction xs) (auto simp: Let_def split: if_splits)

lemma numbered_candidate_first:
  assumes "i \<in> set xs" "\<not> ex (path_join d (sb @ ''-'' @ str_nat i @ ''.'' @ e))"
    and "\<forall>j \<in> set (takeWhile (\<lambda>j. j \<noteq> i) xs). ex (path_join d (sb @ ''-'' @ str_nat j @ ''.'' @ e))"
  shows "numbered_candidate ex d sb e xs = Some (path_join d (sb @ ''-'' @ str_nat i @ ''.'' @ e))"
  using assms by (induction xs) (auto simp: Let_def)

lemma takeWhile_upt: "i < n \<Longrightarrow> m \<le> i \<Longrightarrow> takeWhile (\<lambda>j. j \<noteq> i) [m..<n] = [m..<i]"
proof (induction "i - m" arbitrary: m)
  case 0
  then show ?case by (simp add: upt_conv_Cons)
next
  case (Suc k)
  then have "m < i" "m < n" by auto
  then have "[m..<n] = m # [Suc m..<n]" "[m..<i] = m # [Suc m..<i]"
    by (simp_all add: upt_conv_Cons)
  moreover have "takeWhile (\<lambda>j. j \<noteq> i) [Suc m..<n] = [Suc m..<i]"
    using Suc by auto
  ultimately show ?case using \<open>m < i\<close> by simp
qed

lemma basename_no_slash: "CHR ''/'' \<notin> set (basename p)"
  unfolding basename_def using set_takeWhileD by fastforce

lemma splitext_subset: "set (fst (splitext p)) \<subseteq> set p"
  by (auto simp: splitext_def Let_def dest: in_set_takeD)

lemma path_join_relative:
  assumes "n \<noteq> []" "hd n \<noteq> CHR ''/''"
  shows "path_join d n = (if d = [] \<or> last d = CHR ''/'' then d else d @ ''/'') @ n"
  using assms by (cases n) (auto simp: path_join_def)

lemma output_name_inj:
  assumes "suffix \<noteq> []" "hd suffix \<noteq> CHR ''/''"
  shows "output_name i d f suffix t1 = output_name i d f suffix t2 \<longleftrightarrow> t1 = t2"
proof -
  let ?b = "fst (splitext (basename i))"
  have nb: "CHR ''/'' \<notin> set ?b"
    using basename_no_slash splitext_subset by blast
  have *: "(?b @ suffix @ t @ ''.'' @ lower f) \<noteq> [] \<and> hd (?b @ suffix @ t @ ''.'' @ lower f) \<noteq> CHR ''/''" for t
    using nb assms by (cases ?b) auto
  show ?thesis
    unfolding output_name_def using * by (simp add: path_join_relative)
qed

lemma build_output_path_suffixed: "build_output_path = suffixed_output_path ''-compressed''"
  by (intro ext) (simp add: build_output_path_def suffixed_output_path_def output_name_def Let_def)

lemma build_convert_output_path_suffixed: "build_convert_output_path = suffixed_output_path ''-converted''"
  by (intro ext) (simp add: build_convert_output_path_def suffixed_output_path_def output_name_def Let_def)

lemma suffixed_default:
  "\<not> ex (output_name i d f suffix []) \<Longrightarrow> suffixed_output_path suffix ex now i d f = output_name i d f suffix []"
  by (simp add: suffixed_output_path_def)

lemma suffixed_numbered:
  assumes "ex (output_name i d f suffix [])" "2 \<le> k" "k < 50"
    and "\<not> ex (output_name i d f suffix (''-'' @ str_nat k))"
    and "\<forall>j. 2 \<le> j \<and> j < k \<longrightarrow> ex (output_name i d f suffix (''-'' @ str_nat j))"
  shows "suffixed_output_path suffix ex now i d f = output_name i d f suffix (''-'' @ str_nat k)"
proof -
  have "numbered_candidate ex d (fst (splitext (basename i)) @ suffix) (lower f) [2..<50]
        = Some (path_join d ((fst (splitext (basename i)) @ suffix) @ ''-'' @ str_nat k @ ''.'' @ lower f))"
    using assms
    by (intro numbered_candidate_first) (auto simp: takeWhile_upt output_name_def simp del: upt_rec_numeral)
  then show ?thesis using assms(1) by (simp add: suffixed_output_path_def output_name_def)
qed

lemma suffixed_timestamp:
  assumes "ex (output_name i d f suffix [])"
    and "\<forall>j. 2 \<le> j \<and> j < 50 \<longrightarrow> ex (output_name i d f suffix (''-'' @ str_nat j))"
  shows "suffixed_output_path suffix ex now i d f = output_name i d f suffix (''-'' @ str_int now)"
proof -
  have "numbered_candidate ex d (fst (splitext (basename i)) @ suffix) (lower f) [2..<50] = None"
    using assms(2) by (auto simp: numbered_candidate_None output_name_def simp del: upt_rec_numeral)
  then show ?thesis using assms(1) by (simp add: suffixed_output_path_def)
qed

lemma str_int_nonempty: "str_int n \<noteq> []"
  by (simp add: str_int_def) (subst str_nat.simps, simp)

lemma suffixed_second_differs:
  assumes "suffix \<noteq> []" "hd suffix \<noteq> CHR ''/''" "ex (output_name i d f suffix [])"
  shows "suffixed_output_path suffix ex now i d f \<noteq> output_name i d f suffix []"
proof (cases "numbered_candidate ex d (fst (splitext (basename i)) @ suffix) (lower f) [2..<50]")
  case None
  then show ?thesis
    using assms str_int_nonempty [of now]
    by (simp add: suffixed_output_path_def output_name_inj del: upt_rec_numeral)
next
  case (Some c)
  then have "\<not> ex c" by (rule numbered_candidate_not_exists)
  with Some assms(3) show ?thesis
    by (auto simp: suffixed_output_path_def simp del: upt_rec_numeral)
qed

text \<open>
  Claim C7.  Let \<open>name tag\<close> be the path in the output directory made of the input's base
  name, the suffix of the kind (\<open>-compressed\<close> for \<open>build_output_path\<close>, \<open>-converted\<close> for
  \<open>build_convert_output_path\<close>), the tag and the lowercased format.  The builder returns
  \<open>name []\<close> when that path does not exist; otherwise \<open>name (-k)\<close> for the least \<open>k\<close> from
  2 to 49 whose path does not exist; and when all of these exist, the name tagged with
  the clock.  Hence, when the default path is free and the first job creates it, a
  second run of the builder returns a different path, and it is \<open>name ''-2''\<close> when that
  one is free: two successive submissions of a request get two distinct output paths.
\<close>

theorem output_path_convention:
  fixes path_exists :: "string \<Rightarrow> bool" and src dir fmt suffix :: string
  assumes "(build, suffix) = (build_output_path, ''-compressed'')
         \<or> (build, suffix) = (build_convert_output_path, ''-converted'')"
  defines "name \<equiv> output_name src dir fmt suffix"
  shows "(\<not> path_exists (name []) \<longrightarrow> build path_exists now src dir fmt = name [])
       \<and> (\<forall>k. path_exists (name []) \<and> 2 \<le> k \<and> k < 50 \<and> \<not> path_exists (name (''-'' @ str_nat k))
              \<and> (\<forall>j. 2 \<le> j \<and> j < k \<longrightarrow> path_exists (name (''-'' @ str_nat j))) \<longrightarrow>
            build path_exists now src dir fmt = name (''-'' @ str_nat k))
       \<and> (path_exists (name []) \<and> (\<forall>j. 2 \<le> j \<and> j < 50 \<longrightarrow> path_exists (name (''-'' @ str_nat j))) \<longrightarrow>
            build path_exists now src dir fmt = name (''-'' @ str_int now))
       \<and> (\<not> path_exists (name []) \<longrightarrow>
            build (path_exists(name [] := True)) later src dir fmt \<noteq> build path_exists now src dir fmt
          \<and> (\<not> path_exists (name ''-2'') \<longrightarrow>
               build (path_exists(name [] := True)) later src dir fmt = name ''-2''))"
proof -
  have b: "build = suffixed_output_path suffix" and s: "suffix \<noteq> []" "hd suffix \<noteq> CHR ''/''"
    using assms(1) by (auto simp: build_output_path_suffixed build_convert_output_path_suffixed)
  have two: "str_nat 2 = ''2''"
    by code_simp
  have second: "suffixed_output_path suffix (path_exists(name [] := True)) later src dir fmt = name ''-2''"
    if "\<not> path_exists (name ''-2'')"
  proof -
    have ne: "name ''-2'' \<noteq> name []"
      unfolding name_def using s by (simp add: output_name_inj)
    have "suffixed_output_path suffix (path_exists(name [] := True)) later src dir fmt
          = output_name src dir fmt suffix (''-'' @ str_nat 2)"
      by (rule suffixed_numbered) (use that ne in \<open>auto simp: name_def two\<close>)
    then show ?thesis
      by (simp add: two name_def)
  qed
  show ?thesis
    unfolding b name_def
    using suffixed_default [of path_exists src dir fmt suffix now]
      suffixed_numbered [of path_exists src dir fmt suffix _ now]
      suffixed_timestamp [of path_exists src dir fmt suffix now]
      suffixed_second_differs [OF s, of "path_exists(name [] := True)" src dir fmt later]
      second
    by (auto simp: name_def)
qed

lemma clip_names:
  "output_name ''/v/clip.mov'' ''/out'' ''MP4'' ''-compressed'' [] = ''/out/clip-compressed.mp4''"
  "output_name ''/v/clip.mov'' ''/out'' ''MP4'' ''-compressed'' ''-2'' = ''/out/clip-compressed-2.mp4''"
  "output_name ''/v/clip.mov'' ''/out'' ''MP4'' ''-compressed'' (CHR ''-'' # str_nat 2) = ''/out/clip-compressed-2.mp4''"
  "output_name ''/v/clip.mov'' ''/out'' ''MP4'' ''-compressed'' (CHR ''-'' # str_nat 3) = ''/out/clip-compressed-3.mp4''"
  "output_name ''/v/clip.mov'' ''/out'' ''MP4'' ''-compressed'' (CHR ''-'' # str_int 17) = ''/out/clip-compressed-17.mp4''"
  by code_simp+

theorem output_path_convention_witness:
  "build_output_path (\<lambda>p. False) 17 ''/v/clip.mov'' ''/out'' ''MP4'' = ''/out/clip-compressed.mp4''
 \<and> build_output_path ((\<lambda>p. False)(''/out/clip-compressed.mp4'' := True)) 18 ''/v/clip.mov'' ''/out'' ''MP4''
     = ''/out/clip-compressed-2.mp4''
 \<and> build_output_path (\<lambda>p. p = ''/out/clip-compressed.mp4'' \<or> p = ''/out/clip-compressed-2.mp4'') 17
       ''/v/clip.mov'' ''/out'' ''MP4'' = ''/out/clip-compressed-3.mp4''
 \<and> build_output_path (\<lambda>p. True) 17 ''/v/clip.mov'' ''/out'' ''MP4'' = ''/out/clip-compressed-17.mp4''"
proof -
  let ?two = "\<lambda>p. p = ''/out/clip-compressed.mp4'' \<or> p = ''/out/clip-compressed-2.mp4''"
  let ?name = "output_name ''/v/clip.mov'' ''/out'' ''MP4'' ''-compressed''"
  have kind: "(build_output_path, ''-compressed'') = (build_output_path, ''-compressed'')
            \<or> (build_output_path, ''-compressed'') = (build_convert_output_path, ''-converted'')"
    by simp
  have a: "build_output_path (\<lambda>p. False) 17 ''/v/clip.mov'' ''/out'' ''MP4'' = ''/out/clip-compressed.mp4''
     \<and> build_output_path ((\<lambda>p. False)(''/out/clip-compressed.mp4'' := True)) 18 ''/v/clip.mov'' ''/out'' ''MP4''
         = ''/out/clip-compressed-2.mp4''"
    using output_path_convention [OF kind, of "\<lambda>p. False" "''/v/clip.mov''" "''/out''" "''MP4''" 17 18]
    by (simp add: clip_names)
  have third: "?two (?name []) \<and> 2 \<le> (3::nat) \<and> (3::nat) < 50 \<and> \<not> ?two (?name (''-'' @ str_nat 3))
               \<and> (\<forall>j. 2 \<le> j \<and> j < 3 \<longrightarrow> ?two (?name (''-'' @ str_nat j)))"
  proof (intro conjI allI impI)
    fix j :: nat
    assume "2 \<le> j \<and> j < 3"
    then have "j = 2" by arith
    then show "?two (?name (''-'' @ str_nat j))" by (simp add: clip_names)
  qed (simp_all add: clip_names)
  have b: "build_output_path ?two 17 ''/v/clip.mov'' ''/out'' ''MP4'' = ''/out/clip-compressed-3.mp4''"
    using output_path_convention [OF kind, of ?two "''/v/clip.mov''" "''/out''" "''MP4''" 17 18,
        THEN conjunct2, THEN conjunct1, THEN spec, THEN mp, OF third]
    by (simp add: clip_names)
  have c: "build_output_path (\<lambda>p. True) 17 ''/v/clip.mov'' ''/out'' ''MP4'' = ''/out/clip-compressed-17.mp4''"
    using output_path_convention [OF kind, of "\<lambda>p. True" "''/v/clip.mov''" "''/out''" "''MP4''" 17 18]
    by (simp add: clip_names)
  from a b c show ?thesis by blast
qed

section \<open>Properties of the download manager\<close>

text \<open>
  Claim C6.  Cancelling a download succeeds exactly when the identifier is registered
  with status \<open>PENDING\<close> or \<open>DOWNLOADING\<close>.  On success the task gets status \<open>ERROR\<close> and
  the error message \<open>Cancelled by user\<close>, and the endpoint answers \<open>cancelled\<close>.  In every
  other case (any other status, or an unknown identifier) \<open>cancel_task\<close> returns
  \<open>False\<close>, the endpoint raises the HTTP error 400, and the registry is unchanged.
\<close>

theorem cancel_download_iff:
  "(fst (cancel_task tid tasks) \<longleftrightarrow>
      (\<exists>task. map_of tasks tid = Some task
            \<and> status task \<in> {DownloadStatus.PENDING, DownloadStatus.DOWNLOADING}))
 \<and> (\<forall>task. map_of tasks tid = Some task
          \<and> status task \<in> {DownloadStatus.PENDING, DownloadStatus.DOWNLOADING} \<longrightarrow>
        cancel_task tid tasks =
          (True, AList.update tid
                   (task\<lparr>status := DownloadStatus.ERROR, error := Some ''Cancelled by user''\<rparr>) tasks)
      \<and> map_of (snd (cancel_task tid tasks)) tid =
          Some (task\<lparr>status := DownloadStatus.ERROR, error := Some ''Cancelled by user''\<rparr>)
      \<and> fst (cancel_download tid tasks) = Inr [(''status'', ''cancelled''), (''task_id'', tid)]
      \<and> snd (cancel_download tid tasks) = snd (cancel_task tid tasks))
 \<and> (\<not> fst (cancel_task tid tasks) \<longrightarrow>
        cancel_task tid tasks = (False, tasks)
      \<and> cancel_download tid tasks = (Inl (HTTPException 400 ''Cannot cancel this task''), tasks))"
  by (auto simp: cancel_task_def cancel_download_def update_conv' split: option.splits)

theorem cancel_download_iff_witness:
  "cancel_download ''d1'' [(''d1'', sample_download DownloadStatus.PENDING)] =
     (Inr [(''status'', ''cancelled''), (''task_id'', ''d1'')],
      [(''d1'', (sample_download DownloadStatus.PENDING)
                  \<lparr>status := DownloadStatus.ERROR, error := Some ''Cancelled by user''\<rparr>)])
 \<and> cancel_download ''d1'' [(''d1'', sample_download DownloadStatus.COMPLETED)] =
     (Inl (HTTPException 400 ''Cannot cancel this task''), [(''d1'', sample_download DownloadStatus.COMPLETED)])
 \<and> cancel_download ''zz'' [(''d1'', sample_download DownloadStatus.PENDING)] =
     (Inl (HTTPException 400 ''Cannot cancel this task''), [(''d1'', sample_download DownloadStatus.PENDING)])"
proof -
  let ?p = "sample_download DownloadStatus.PENDING" and ?c = "sample_download DownloadStatus.COMPLETED"
  have sp: "status ?p = DownloadStatus.PENDING" and sc: "status ?c = DownloadStatus.COMPLETED"
    by (simp_all add: sample_download_def)
  have 1: "map_of [(''d1'', ?p)] ''d1'' = Some ?p
           \<and> status ?p \<in> {DownloadStatus.PENDING, DownloadStatus.DOWNLOADING}"
    using sp by simp
  have 2: "\<not> fst (cancel_task ''d1'' [(''d1'', ?c)])"
    using cancel_download_iff [of "''d1''" "[(''d1'', ?c)]"] sc by simp
  have 3: "\<not> fst (cancel_task ''zz'' [(''d1'', ?p)])"
    using cancel_download_iff [of "''zz''" "[(''d1'', ?p)]"] by simp
  note ok = cancel_download_iff [of "''d1''" "[(''d1'', ?p)]", THEN conjunct2, THEN conjunct1,
      THEN spec, THEN mp, OF 1]
  note no_c = cancel_download_iff [of "''d1''" "[(''d1'', ?c)]", THEN conjunct2, THEN conjunct2,
      THEN mp, OF 2]
  note no_z = cancel_download_iff [of "''zz''" "[(''d1'', ?p)]", THEN conjunct2, THEN conjunct2,
      THEN mp, OF 3]
  from ok have "cancel_download ''d1'' [(''d1'', ?p)] =
     (Inr [(''status'', ''cancelled''), (''task_id'', ''d1'')],
      [(''d1'', ?p\<lparr>status := DownloadStatus.ERROR, error := Some ''Cancelled by user''\<rparr>)])"
    by (simp add: prod_eq_iff)
  with no_c no_z show ?thesis by simp
qed

section \<open>Properties of the terminal write\<close>

text \<open>
  Claim C3.  When the task's error field holds the sentinel \<open>Cancelled by user\<close>, the
  terminal write of the runner changes nothing, whatever the exit code and the
  retained lines: the registry after it is the registry before it, so the task keeps
  the sentinel and its status.  This holds for the compression runner and for the
  conversion runner.
\<close>

theorem cancelled_sentinel_preserved:
  "(\<forall>task. map_of ctasks tid = Some task \<and> error task = Some ''Cancelled by user'' \<longrightarrow>
       compression_finish tid returncode last_error_lines ctasks = ctasks
     \<and> map_of (compression_finish tid returncode last_error_lines ctasks) tid = Some task)
 \<and> (\<forall>task. map_of vtasks tid = Some task \<and> error task = Some ''Cancelled by user'' \<longrightarrow>
       convert_finish tid returncode last_error_lines vtasks = vtasks
     \<and> map_of (convert_finish tid returncode last_error_lines vtasks) tid = Some task)"
  by (simp add: compression_finish_def convert_finish_def)

theorem cancelled_sentinel_preserved_witness:
  "compression_finish ''c1'' 0 []
     [(''c1'', sample_compression\<lparr>status := CompressionStatus.ERROR, error := Some ''Cancelled by user''\<rparr>)]
   = [(''c1'', sample_compression\<lparr>status := CompressionStatus.ERROR, error := Some ''Cancelled by user''\<rparr>)]
 \<and> compression_finish ''c1'' 1 [''Exiting normally, received signal 15.'']
     [(''c1'', sample_compression\<lparr>status := CompressionStatus.ERROR, error := Some ''Cancelled by user''\<rparr>)]
   = [(''c1'', sample_compression\<lparr>status := CompressionStatus.ERROR, error := Some ''Cancelled by user''\<rparr>)]
 \<and> convert_finish ''v1'' 0 []
     [(''v1'', sample_convert\<lparr>status := ''error'', error := Some ''Cancelled by user''\<rparr>)]
   = [(''v1'', sample_convert\<lparr>status := ''error'', error := Some ''Cancelled by user''\<rparr>)]
 \<and> convert_finish ''v1'' 255 [''Conversion failed!'']
     [(''v1'', sample_convert\<lparr>status := ''error'', error := Some ''Cancelled by user''\<rparr>)]
   = [(''v1'', sample_convert\<lparr>status := ''error'', error := Some ''Cancelled by user''\<rparr>)]"
proof -
  let ?c = "sample_compression\<lparr>status := CompressionStatus.ERROR, error := Some ''Cancelled by user''\<rparr>"
  let ?v = "sample_convert\<lparr>status := ''error'', error := Some ''Cancelled by user''\<rparr>"
  have c: "map_of [(''c1'', ?c)] ''c1'' = Some ?c \<and> error ?c = Some ''Cancelled by user''"
    by simp
  have v: "map_of [(''v1'', ?v)] ''v1'' = Some ?v \<and> error ?v = Some ''Cancelled by user''"
    by simp
  note C = cancelled_sentinel_preserved [THEN conjunct1, THEN spec, THEN mp, OF c, THEN conjunct1]
  note V = cancelled_sentinel_preserved [THEN conjunct2, THEN spec, THEN mp, OF v, THEN conjunct1]
  show ?thesis
    using C [of 0 "[]"] C [of 1 "[''Exiting normally, received signal 15.'']"]
      V [of 0 "[]"] V [of 255 "[''Conversion failed!'']"]
    by simp
qed

text \<open>
  Claim C5 does not hold as stated: with one retained line that is empty, the lines
  retained are not none, yet the tail joined from them is the empty string and the
  error field gets the default diagnostic, not that tail.
\<close>

theorem stderr_tail_counterexample:
  "[''''] \<noteq> ([] :: string list)
 \<and> error_tail [''''] = ''''
 \<and> map_option error (map_of (compression_finish ''c1'' 1 [''''] [(''c1'', sample_compression)]) ''c1'')
     = Some (Some ''Error al comprimir el video.'')
 \<and> map_option error (map_of (convert_finish ''v1'' 1 [''''] [(''v1'', sample_convert)]) ''v1'')
     = Some (Some ''Error al convertir.'')"
  by (simp add: error_tail_def compression_finish_def convert_finish_def
      sample_compression_def sample_convert_def)

text \<open>
  Claim C5, amended.  For a registered task whose error field is not the sentinel, the
  terminal write with exit code 0 sets the status to \<open>COMPLETED\<close> and the progress to 100
  and touches nothing else; with any other exit code it sets the status to \<open>ERROR\<close> and
  the error field to the tail, that is the last five retained lines joined by newlines,
  or to the default diagnostic when that tail is the empty string (no line retained, or
  a single empty one).  So a task that this write makes \<open>COMPLETED\<close> has progress 100.
\<close>

theorem terminal_write_outcome:
  "(\<forall>task. map_of ctasks tid = Some task \<and> error task \<noteq> Some ''Cancelled by user'' \<longrightarrow>
       compression_finish tid returncode last_error_lines ctasks =
         AList.update tid
           (if returncode = 0 then task\<lparr>status := CompressionStatus.COMPLETED, progress := 100\<rparr>
            else task\<lparr>status := CompressionStatus.ERROR,
                      error := Some (if error_tail last_error_lines = [] then ''Error al comprimir el video.''
                                     else error_tail last_error_lines)\<rparr>) ctasks
     \<and> (\<forall>task'. map_of (compression_finish tid returncode last_error_lines ctasks) tid = Some task'
            \<and> status task' = CompressionStatus.COMPLETED \<longrightarrow> returncode = 0 \<and> progress task' = 100))
 \<and> (\<forall>task. map_of vtasks tid = Some task \<and> error task \<noteq> Some ''Cancelled by user'' \<longrightarrow>
       convert_finish tid returncode last_error_lines vtasks =
         AList.update tid
           (if returncode = 0 then task\<lparr>status := ''completed'', progress := 100\<rparr>
            else task\<lparr>status := ''error'',
                      error := Some (if error_tail last_error_lines = [] then ''Error al convertir.''
                                     else error_tail last_error_lines)\<rparr>) vtasks
     \<and> (\<forall>task'. map_of (convert_finish tid returncode last_error_lines vtasks) tid = Some task'
            \<and> status task' = ''completed'' \<longrightarrow> returncode = 0 \<and> progress task' = 100))
 \<and> error_tail last_error_lines =
      join_str [CHR 0x0A] (drop (length last_error_lines - 5) last_error_lines)"
  by (auto simp: compression_finish_def convert_finish_def error_tail_def Let_def update_conv')


lemma sample_tails:
  "error_tail [''a'', ''b'', ''c'', ''d'', ''e'', ''f'']
     = ''b'' @ [CHR 0x0A] @ ''c'' @ [CHR 0x0A] @ ''d'' @ [CHR 0x0A] @ ''e'' @ [CHR 0x0A] @ ''f''"
  "error_tail [] = []"
  by (simp_all add: error_tail_def)

theorem terminal_write_outcome_witness:
  "compression_finish ''c1'' 0 [] [(''c1'', sample_compression)]
     = [(''c1'', sample_compression\<lparr>status := CompressionStatus.COMPLETED, progress := 100\<rparr>)]
 \<and> compression_finish ''c1'' 1 [''a'', ''b'', ''c'', ''d'', ''e'', ''f''] [(''c1'', sample_compression)]
     = [(''c1'', sample_compression
           \<lparr>status := CompressionStatus.ERROR,
            error := Some (''b'' @ [CHR 0x0A] @ ''c'' @ [CHR 0x0A] @ ''d'' @ [CHR 0x0A] @ ''e'' @ [CHR 0x0A] @ ''f'')\<rparr>)]
 \<and> convert_finish ''v1'' 0 [''a''] [(''v1'', sample_convert)]
     = [(''v1'', sample_convert\<lparr>status := ''completed'', progress := 100\<rparr>)]
 \<and> convert_finish ''v1'' 1 [] [(''v1'', sample_convert)]
     = [(''v1'', sample_convert\<lparr>status := ''error'', error := Some ''Error al convertir.''\<rparr>)]"
proof -
  have c: "map_of [(''c1'', sample_compression)] ''c1'' = Some sample_compression
           \<and> error sample_compression \<noteq> Some ''Cancelled by user''"
    by (simp add: sample_compression_def)
  have v: "map_of [(''v1'', sample_convert)] ''v1'' = Some sample_convert
           \<and> error sample_convert \<noteq> Some ''Cancelled by user''"
    by (simp add: sample_convert_def)
  note C = terminal_write_outcome [THEN conjunct1, THEN spec, THEN mp, OF c, THEN conjunct1]
  note V = terminal_write_outcome [THEN conjunct2, THEN conjunct1, THEN spec, THEN mp, OF v, THEN conjunct1]
  show ?thesis
    using C [of 0 "[]"] C [of 1 "[''a'', ''b'', ''c'', ''d'', ''e'', ''f'']"]
      V [of 0 "[''a'']"] V [of 1 "[]"]
    by (simp add: sample_tails)
qed

section \<open>Properties of the transcode progress parser\<close>

lemma map_of_set_progress:
  "map_of (set_progress tid p tasks) tid = map_option (\<lambda>task. task\<lparr>progress := p\<rparr>) (map_of tasks tid)"
  by (simp add: set_progress_def update_conv' split: option.splits)

lemma set_progress_unknown: "map_of tasks tid = None \<Longrightarrow> set_progress tid p tasks = tasks"
  by (simp add: set_progress_def)

lemma tracked_after_set_progress:
  "map_option progress (map_of (set_progress tid p tasks) tid) = map_option (\<lambda>task. p) (map_of tasks tid)"
  by (simp add: map_of_set_progress option.map_comp comp_def)

lemma human_time_line_cases:
  obtains "human_time_line pfloat pint dur tid line (st, tasks) = (st, tasks)"
  | seconds where
      "human_time_line pfloat pint dur tid line (st, tasks) =
         (st\<lparr>out_time_ms := seconds * 1000,
             last_progress := compute_progress dur (seconds * 1000) (last_progress st) 0.2\<rparr>,
          set_progress tid (compute_progress dur (seconds * 1000) (last_progress st) 0.2) tasks)"
proof (cases "contains ''time='' line")
  case False
  then show ?thesis using that(1) by (simp add: human_time_line_def)
next
  case True
  show ?thesis
  proof (cases "time_token pfloat pint line")
    case None
    with True show ?thesis using that(1) by (simp add: human_time_line_def)
  next
    case (Some seconds)
    with True show ?thesis using that(2) [of seconds] by (simp add: human_time_line_def Let_def)
  qed
qed

lemma human_time_line_registered:
  assumes "human_time_line pfloat pint dur tid line (st, tasks) = (st', tasks')"
  shows "(map_of tasks' tid = None) = (map_of tasks tid = None)"
  using assms
  by (cases rule: human_time_line_cases [of pfloat pint dur tid line st tasks])
     (auto simp: map_of_set_progress)

lemma human_time_line_unknown:
  assumes "map_of tasks tid = None"
  shows "snd (human_time_line pfloat pint dur tid line (st, tasks)) = tasks"
  by (cases rule: human_time_line_cases [of pfloat pint dur tid line st tasks])
     (simp_all add: set_progress_unknown assms)

lemma compression_out_time_ms:
  assumes "contains ''='' line" "split_sep1 ''='' (strip line) = [''out_time_ms'', v]"
    and "pfloat v = Some raw"
    and "human_time_line pfloat pint dur tid line (st, tasks) = (st0, tasks0)"
  defines "out \<equiv> (if exceeds_tenfold dur raw then raw / 1000 else raw)"
  shows "compression_handle_line pfloat pint dur tid line (st, tasks) =
           (None,
            st0\<lparr>log_count := (if log_count st0 < 20 then log_count st0 + 1 else log_count st0),
                out_time_ms := out,
                last_progress := compute_progress dur out (last_progress st0) 0.2\<rparr>,
            set_progress tid (compute_progress dur out (last_progress st0) 0.2) tasks0)"
  using assms(1-4) unfolding out_def compression_handle_line_def
  by (simp add: Let_def)

lemma compression_out_time_us:
  assumes "contains ''='' line" "split_sep1 ''='' (strip line) = [''out_time_us'', v]"
    and "pfloat v = Some raw"
    and "human_time_line pfloat pint dur tid line (st, tasks) = (st0, tasks0)"
  shows "compression_handle_line pfloat pint dur tid line (st, tasks) =
           (None,
            st0\<lparr>log_count := (if log_count st0 < 20 then log_count st0 + 1 else log_count st0),
                out_time_ms := raw / 1000,
                last_progress := compute_progress dur (raw / 1000) (last_progress st0) 0.2\<rparr>,
            set_progress tid (compute_progress dur (raw / 1000) (last_progress st0) 0.2) tasks0)"
  using assms unfolding compression_handle_line_def
  by (simp add: Let_def)

lemma convert_out_time_ms:
  assumes "contains ''='' line" "split_sep1 ''='' (strip line) = [''out_time_ms'', v]"
    and "pfloat v = Some raw"
    and "human_time_line pfloat pint dur tid line (st, tasks) = (st0, tasks0)"
  defines "out \<equiv> (if exceeds_tenfold dur raw then raw / 1000 else raw)"
  shows "convert_handle_line pfloat pint dur tid line (st, tasks) =
           (None,
            st0\<lparr>out_time_ms := out, last_progress := compute_progress dur out (last_progress st0) 0.2\<rparr>,
            set_progress tid (compute_progress dur out (last_progress st0) 0.2) tasks0)"
  using assms(1-4) unfolding out_def convert_handle_line_def
  by (simp add: Let_def)

lemma convert_out_time_us:
  assumes "contains ''='' line" "split_sep1 ''='' (strip line) = [''out_time_us'', v]"
    and "pfloat v = Some raw"
    and "human_time_line pfloat pint dur tid line (st, tasks) = (st0, tasks0)"
  shows "convert_handle_line pfloat pint dur tid line (st, tasks) =
           (None,
            st0\<lparr>out_time_ms := raw / 1000,
                last_progress := compute_progress dur (raw / 1000) (last_progress st0) 0.2\<rparr>,
            set_progress tid (compute_progress dur (raw / 1000) (last_progress st0) 0.2) tasks0)"
  using assms unfolding convert_handle_line_def
  by (simp add: Let_def)

lemma sample_lines:
  "contains ''='' ''out_time_ms=5000''"
  "split_sep1 ''='' (strip ''out_time_ms=5000'') = [''out_time_ms'', ''5000'']"
  "contains ''='' ''out_time_us=5000000''"
  "split_sep1 ''='' (strip ''out_time_us=5000000'') = [''out_time_us'', ''5000000'']"
  "contains ''='' ''out_time_ms=5000000''"
  "split_sep1 ''='' (strip ''out_time_ms=5000000'') = [''out_time_ms'', ''5000000'']"
  by code_simp+

lemma sample_numbers:
  "decimal_float ''5000'' = Some 5000"
  "decimal_float ''5000000'' = Some 5000000"
  by (simp_all add: decimal_float_def strip_def is_space_def unsigned_decimal_def is_digit_def)

lemma tracked_compression_ms:
  fixes dur :: "int option" and raw :: real and pint :: int_reader and st :: compress_parse_state
  assumes "map_of tasks tid = Some task" "contains ''='' line"
    and "split_sep1 ''='' (strip line) = [''out_time_ms'', v]" "pfloat v = Some raw"
  defines "out \<equiv> (if exceeds_tenfold dur raw then raw / 1000 else raw)"
  defines "res \<equiv> compression_handle_line pfloat pint dur tid line (st, tasks)"
  shows "fst res = None" "out_time_ms (fst (snd res)) = out"
    and "\<exists>lp. map_option progress (map_of (snd (snd res)) tid) = Some (compute_progress dur out lp 0.2)"
proof -
  obtain st0 tasks0 where h: "human_time_line pfloat pint dur tid line (st, tasks) = (st0, tasks0)"
    by (cases "human_time_line pfloat pint dur tid line (st, tasks)")
  from human_time_line_registered [OF h] assms(1) obtain task0 where t0: "map_of tasks0 tid = Some task0"
    by auto
  note r = compression_out_time_ms [OF assms(2-4) h]
  show "fst res = None" "out_time_ms (fst (snd res)) = out"
    unfolding res_def out_def r by simp_all
  show "\<exists>lp. map_option progress (map_of (snd (snd res)) tid) = Some (compute_progress dur out lp 0.2)"
    unfolding res_def out_def r using t0 by (auto simp: tracked_after_set_progress)
qed

lemma tracked_compression_us:
  fixes dur :: "int option" and raw :: real and pint :: int_reader and st :: compress_parse_state
  assumes "map_of tasks tid = Some task" "contains ''='' line"
    and "split_sep1 ''='' (strip line) = [''out_time_us'', v]" "pfloat v = Some raw"
  defines "res \<equiv> compression_handle_line pfloat pint dur tid line (st, tasks)"
  shows "fst res = None" "out_time_ms (fst (snd res)) = raw / 1000"
    and "\<exists>lp. map_option progress (map_of (snd (snd res)) tid) = Some (compute_progress dur (raw / 1000) lp 0.2)"
proof -
  obtain st0 tasks0 where h: "human_time_line pfloat pint dur tid line (st, tasks) = (st0, tasks0)"
    by (cases "human_time_line pfloat pint dur tid line (st, tasks)")
  from human_time_line_registered [OF h] assms(1) obtain task0 where t0: "map_of tasks0 tid = Some task0"
    by auto
  note r = compression_out_time_us [OF assms(2-4) h]
  show "fst res = None" "out_time_ms (fst (snd res)) = raw / 1000"
    unfolding res_def r by simp_all
  show "\<exists>lp. map_option progress (map_of (snd (snd res)) tid) = Some (compute_progress dur (raw / 1000) lp 0.2)"
    unfolding res_def r using t0 by (auto simp: tracked_after_set_progress)
qed

lemma tracked_convert_ms:
  fixes dur :: "int option" and raw :: real and pint :: int_reader and st :: parse_state
  assumes "map_of tasks tid = Some task" "contains ''='' line"
    and "split_sep1 ''='' (strip line) = [''out_time_ms'', v]" "pfloat v = Some raw"
  defines "out \<equiv> (if exceeds_tenfold dur raw then raw / 1000 else raw)"
  defines "res \<equiv> convert_handle_line pfloat pint dur tid line (st, tasks)"
  shows "fst res = None" "out_time_ms (fst (snd res)) = out"
    and "\<exists>lp. map_option progress (map_of (snd (snd res)) tid) = Some (compute_progress dur out lp 0.2)"
proof -
  obtain st0 tasks0 where h: "human_time_line pfloat pint dur tid line (st, tasks) = (st0, tasks0)"
    by (cases "human_time_line pfloat pint dur tid line (st, tasks)")
  from human_time_line_registered [OF h] assms(1) obtain task0 where t0: "map_of tasks0 tid = Some task0"
    by auto
  note r = convert_out_time_ms [OF assms(2-4) h]
  show "fst res = None" "out_time_ms (fst (snd res)) = out"
    unfolding res_def out_def r by simp_all
  show "\<exists>lp. map_option progress (map_of (snd (snd res)) tid) = Some (compute_progress dur out lp 0.2)"
    unfolding res_def out_def r using t0 by (auto simp: tracked_after_set_progress)
qed

lemma tracked_convert_us:
  fixes dur :: "int option" and raw :: real and pint :: int_reader and st :: parse_state
  assumes "map_of tasks tid = Some task" "contains ''='' line"
    and "split_sep1 ''='' (strip line) = [''out_time_us'', v]" "pfloat v = Some raw"
  defines "res \<equiv> convert_handle_line pfloat pint dur tid line (st, tasks)"
  shows "fst res = None" "out_time_ms (fst (snd res)) = raw / 1000"
    and "\<exists>lp. map_option progress (map_of (snd (snd res)) tid) = Some (compute_progress dur (raw / 1000) lp 0.2)"
proof -
  obtain st0 tasks0 where h: "human_time_line pfloat pint dur tid line (st, tasks) = (st0, tasks0)"
    by (cases "human_time_line pfloat pint dur tid line (st, tasks)")
  from human_time_line_registered [OF h] assms(1) obtain task0 where t0: "map_of tasks0 tid = Some task0"
    by auto
  note r = convert_out_time_us [OF assms(2-4) h]
  show "fst res = None" "out_time_ms (fst (snd res)) = raw / 1000"
    unfolding res_def r by simp_all
  show "\<exists>lp. map_option progress (map_of (snd (snd res)) tid) = Some (compute_progress dur (raw / 1000) lp 0.2)"
    unfolding res_def r using t0 by (auto simp: tracked_after_set_progress)
qed

lemma compute_progress_known:
  "d \<noteq> 0 \<Longrightarrow> compute_progress (Some d) out lp step = min 100 ((out / real_of_int d) * 100)"
  by (simp add: compute_progress_def)

lemma exceeds_tenfold_known:
  "d \<noteq> 0 \<Longrightarrow> exceeds_tenfold (Some d) raw = (raw > real_of_int (d * 10))"
  by (simp add: exceeds_tenfold_def)

text \<open>
  Claim C2.  With \<open>duration_ms = 10000\<close> and a registered task, the line
  \<open>out_time_ms=5000\<close> sets the task's progress to 50, and so does the line
  \<open>out_time_us=5000000\<close>, in the compression handler and in the conversion handler
  (\<open>float\<close> reading \<open>5000\<close> and \<open>5000000\<close> as these numbers).  For every known duration
  \<open>d\<close> and every line whose key is \<open>out_time_ms\<close> and whose value reads as a number
  greater than \<open>d * 10\<close>, the handlers take the value for microseconds: the elapsed time
  they keep is the value divided by 1000, and the progress they write is computed from
  that, \<open>min 100 (value / 1000 / d * 100)\<close>.
\<close>

theorem progress_parser_known_duration:
  fixes st :: compress_parse_state and vst :: parse_state
  shows
  "(\<forall>task. map_of ctasks tid = Some task \<and> pfloat ''5000'' = Some 5000 \<longrightarrow>
      map_option progress (map_of (snd (snd
        (compression_handle_line pfloat pint (Some 10000) tid ''out_time_ms=5000'' (st, ctasks)))) tid)
      = Some 50)
 \<and> (\<forall>task. map_of ctasks tid = Some task \<and> pfloat ''5000000'' = Some 5000000 \<longrightarrow>
      map_option progress (map_of (snd (snd
        (compression_handle_line pfloat pint (Some 10000) tid ''out_time_us=5000000'' (st, ctasks)))) tid)
      = Some 50)
 \<and> (\<forall>task. map_of vtasks tid = Some task \<and> pfloat ''5000'' = Some 5000 \<longrightarrow>
      map_option progress (map_of (snd (snd
        (convert_handle_line pfloat pint (Some 10000) tid ''out_time_ms=5000'' (vst, vtasks)))) tid)
      = Some 50)
 \<and> (\<forall>task. map_of vtasks tid = Some task \<and> pfloat ''5000000'' = Some 5000000 \<longrightarrow>
      map_option progress (map_of (snd (snd
        (convert_handle_line pfloat pint (Some 10000) tid ''out_time_us=5000000'' (vst, vtasks)))) tid)
      = Some 50)
 \<and> (\<forall>task line v raw d.
        map_of ctasks tid = Some task \<and> contains ''='' line
        \<and> split_sep1 ''='' (strip line) = [''out_time_ms'', v] \<and> pfloat v = Some raw
        \<and> d \<noteq> 0 \<and> raw > real_of_int (d * 10) \<longrightarrow>
        out_time_ms (fst (snd (compression_handle_line pfloat pint (Some d) tid line (st, ctasks))))
          = raw / 1000
      \<and> map_option progress (map_of (snd (snd
           (compression_handle_line pfloat pint (Some d) tid line (st, ctasks)))) tid)
          = Some (min 100 ((raw / 1000) / real_of_int d * 100)))
 \<and> (\<forall>task line v raw d.
        map_of vtasks tid = Some task \<and> contains ''='' line
        \<and> split_sep1 ''='' (strip line) = [''out_time_ms'', v] \<and> pfloat v = Some raw
        \<and> d \<noteq> 0 \<and> raw > real_of_int (d * 10) \<longrightarrow>
        out_time_ms (fst (snd (convert_handle_line pfloat pint (Some d) tid line (vst, vtasks))))
          = raw / 1000
      \<and> map_option progress (map_of (snd (snd
           (convert_handle_line pfloat pint (Some d) tid line (vst, vtasks)))) tid)
          = Some (min 100 ((raw / 1000) / real_of_int d * 100)))"
proof (intro conjI allI impI; (elim conjE)?)
  fix task
  assume a: "map_of ctasks tid = Some task" "pfloat ''5000'' = Some 5000"
  from tracked_compression_ms(3) [where pfloat = pfloat and pint = pint and dur = "Some 10000" and st = st and tasks = ctasks
      and tid = tid and task = task and line = "''out_time_ms=5000''" and v = "''5000''" and raw = 5000,
      OF a(1) sample_lines(1,2) a(2)]
  show "map_option progress (map_of (snd (snd
        (compression_handle_line pfloat pint (Some 10000) tid ''out_time_ms=5000'' (st, ctasks)))) tid)
      = Some 50"
    by (simp add: compute_progress_known exceeds_tenfold_known)
next
  fix task
  assume a: "map_of ctasks tid = Some task" "pfloat ''5000000'' = Some 5000000"
  from tracked_compression_us(3) [where pfloat = pfloat and pint = pint and dur = "Some 10000" and st = st and tasks = ctasks
      and tid = tid and task = task and line = "''out_time_us=5000000''" and v = "''5000000''" and raw = 5000000,
      OF a(1) sample_lines(3,4) a(2)]
  show "map_option progress (map_of (snd (snd
        (compression_handle_line pfloat pint (Some 10000) tid ''out_time_us=5000000'' (st, ctasks)))) tid)
      = Some 50"
    by (simp add: compute_progress_known)
next
  fix task
  assume a: "map_of vtasks tid = Some task" "pfloat ''5000'' = Some 5000"
  from tracked_convert_ms(3) [where pfloat = pfloat and pint = pint and dur = "Some 10000" and st = vst and tasks = vtasks
      and tid = tid and task = task and line = "''out_time_ms=5000''" and v = "''5000''" and raw = 5000,
      OF a(1) sample_lines(1,2) a(2)]
  show "map_option progress (map_of (snd (snd
        (convert_handle_line pfloat pint (Some 10000) tid ''out_time_ms=5000'' (vst, vtasks)))) tid)
      = Some 50"
    by (simp add: compute_progress_known exceeds_tenfold_known)
next
  fix task
  assume a: "map_of vtasks tid = Some task" "pfloat ''5000000'' = Some 5000000"
  from tracked_convert_us(3) [where pfloat = pfloat and pint = pint and dur = "Some 10000" and st = vst and tasks = vtasks
      and tid = tid and task = task and line = "''out_time_us=5000000''" and v = "''5000000''" and raw = 5000000,
      OF a(1) sample_lines(3,4) a(2)]
  show "map_option progress (map_of (snd (snd
        (convert_handle_line pfloat pint (Some 10000) tid ''out_time_us=5000000'' (vst, vtasks)))) tid)
      = Some 50"
    by (simp add: compute_progress_known)
next
  fix task line v raw and d :: int
  assume a: "map_of ctasks tid = Some task" "contains ''='' line"
    "split_sep1 ''='' (strip line) = [''out_time_ms'', v]" "pfloat v = Some raw"
    and d: "d \<noteq> 0" "raw > real_of_int (d * 10)"
  from tracked_compression_ms(2) [where pfloat = pfloat and pint = pint and dur = "Some d" and st = st and tasks = ctasks
      and tid = tid and task = task and line = line and v = v and raw = raw, OF a] d
  show "out_time_ms (fst (snd (compression_handle_line pfloat pint (Some d) tid line (st, ctasks))))
          = raw / 1000"
    by (simp add: exceeds_tenfold_known)
  from tracked_compression_ms(3) [where pfloat = pfloat and pint = pint and dur = "Some d" and st = st and tasks = ctasks
      and tid = tid and task = task and line = line and v = v and raw = raw, OF a] d
  show "map_option progress (map_of (snd (snd
           (compression_handle_line pfloat pint (Some d) tid line (st, ctasks)))) tid)
          = Some (min 100 ((raw / 1000) / real_of_int d * 100))"
    by (simp add: compute_progress_known exceeds_tenfold_known)
next
  fix task line v raw and d :: int
  assume a: "map_of vtasks tid = Some task" "contains ''='' line"
    "split_sep1 ''='' (strip line) = [''out_time_ms'', v]" "pfloat v = Some raw"
    and d: "d \<noteq> 0" "raw > real_of_int (d * 10)"
  from tracked_convert_ms(2) [where pfloat = pfloat and pint = pint and dur = "Some d" and st = vst and tasks = vtasks
      and tid = tid and task = task and line = line and v = v and raw = raw, OF a] d
  show "out_time_ms (fst (snd (convert_handle_line pfloat pint (Some d) tid line (vst, vtasks))))
          = raw / 1000"
    by (simp add: exceeds_tenfold_known)
  from tracked_convert_ms(3) [where pfloat = pfloat and pint = pint and dur = "Some d" and st = vst and tasks = vtasks
      and tid = tid and task = task and line = line and v = v and raw = raw, OF a] d
  show "map_option progress (map_of (snd (snd
           (convert_handle_line pfloat pint (Some d) tid line (vst, vtasks)))) tid)
          = Some (min 100 ((raw / 1000) / real_of_int d * 100))"
    by (simp add: compute_progress_known exceeds_tenfold_known)
qed

theorem progress_parser_known_duration_witness:
  "map_option progress (map_of (snd (snd
     (compression_handle_line decimal_float decimal_int (Some 10000) ''c1'' ''out_time_ms=5000''
        (fresh_state, [(''c1'', sample_compression)])))) ''c1'') = Some 50
 \<and> map_option progress (map_of (snd (snd
     (compression_handle_line decimal_float decimal_int (Some 10000) ''c1'' ''out_time_us=5000000''
        (fresh_state, [(''c1'', sample_compression)])))) ''c1'') = Some 50
 \<and> map_option progress (map_of (snd (snd
     (convert_handle_line decimal_float decimal_int (Some 10000) ''c1'' ''out_time_ms=5000''
        (fresh_convert_state, [(''c1'', sample_convert)])))) ''c1'') = Some 50
 \<and> map_option progress (map_of (snd (snd
     (convert_handle_line decimal_float decimal_int (Some 10000) ''c1'' ''out_time_us=5000000''
        (fresh_convert_state, [(''c1'', sample_convert)])))) ''c1'') = Some 50
 \<and> out_time_ms (fst (snd
     (compression_handle_line decimal_float decimal_int (Some 10000) ''c1'' ''out_time_ms=5000000''
        (fresh_state, [(''c1'', sample_compression)])))) = 5000
 \<and> map_option progress (map_of (snd (snd
     (compression_handle_line decimal_float decimal_int (Some 10000) ''c1'' ''out_time_ms=5000000''
        (fresh_state, [(''c1'', sample_compression)])))) ''c1'') = Some 50
 \<and> out_time_ms (fst (snd
     (convert_handle_line decimal_float decimal_int (Some 10000) ''c1'' ''out_time_ms=5000000''
        (fresh_convert_state, [(''c1'', sample_convert)])))) = 5000
 \<and> map_option progress (map_of (snd (snd
     (convert_handle_line decimal_float decimal_int (Some 10000) ''c1'' ''out_time_ms=5000000''
        (fresh_convert_state, [(''c1'', sample_convert)])))) ''c1'') = Some 50"
proof -
  note T = progress_parser_known_duration [where pfloat = decimal_float and pint = decimal_int
      and tid = "''c1''" and ctasks = "[(''c1'', sample_compression)]" and st = fresh_state
      and vtasks = "[(''c1'', sample_convert)]" and vst = fresh_convert_state]
  have c1: "map_of [(''c1'', sample_compression)] ''c1'' = Some sample_compression \<and> decimal_float ''5000'' = Some 5000"
    and c2: "map_of [(''c1'', sample_compression)] ''c1'' = Some sample_compression \<and> decimal_float ''5000000'' = Some 5000000"
    and v1: "map_of [(''c1'', sample_convert)] ''c1'' = Some sample_convert \<and> decimal_float ''5000'' = Some 5000"
    and v2: "map_of [(''c1'', sample_convert)] ''c1'' = Some sample_convert \<and> decimal_float ''5000000'' = Some 5000000"
    by (simp_all add: sample_numbers)
  have c3: "map_of [(''c1'', sample_compression)] ''c1'' = Some sample_compression
      \<and> contains ''='' ''out_time_ms=5000000''
      \<and> split_sep1 ''='' (strip ''out_time_ms=5000000'') = [''out_time_ms'', ''5000000'']
      \<and> decimal_float ''5000000'' = Some 5000000
      \<and> (10000::int) \<noteq> 0 \<and> (5000000::real) > real_of_int (10000 * 10)"
    and v3: "map_of [(''c1'', sample_convert)] ''c1'' = Some sample_convert
      \<and> contains ''='' ''out_time_ms=5000000''
      \<and> split_sep1 ''='' (strip ''out_time_ms=5000000'') = [''out_time_ms'', ''5000000'']
      \<and> decimal_float ''5000000'' = Some 5000000
      \<and> (10000::int) \<noteq> 0 \<and> (5000000::real) > real_of_int (10000 * 10)"
    by (simp_all add: sample_numbers sample_lines)
  note A = T [THEN conjunct1, THEN spec, THEN mp, OF c1]
  note B = T [THEN conjunct2, THEN conjunct1, THEN spec, THEN mp, OF c2]
  note C = T [THEN conjunct2, THEN conjunct2, THEN conjunct1, THEN spec, THEN mp, OF v1]
  note D = T [THEN conjunct2, THEN conjunct2, THEN conjunct2, THEN conjunct1, THEN spec, THEN mp, OF v2]
  note E = T [THEN conjunct2, THEN conjunct2, THEN conjunct2, THEN conjunct2, THEN conjunct1,
      THEN spec, THEN spec, THEN spec, THEN spec, THEN spec, THEN mp, OF c3]
  note F = T [THEN conjunct2, THEN conjunct2, THEN conjunct2, THEN conjunct2, THEN conjunct2,
      THEN spec, THEN spec, THEN spec, THEN spec, THEN spec, THEN mp, OF v3]
  from A B C D E F show ?thesis by simp
qed

section \<open>Progress signals for unknown tasks\<close>

lemma find_sep_char: "(find_sep [c] s = None) = (c \<notin> set s)"
  by (induction s) (auto split: option.splits)

lemma contains_char: "contains [c] s = (c \<in> set s)"
  unfolding contains_def using find_sep_char [of c s] by (cases "find_sep [c] s") simp_all

lemma set_dropWhile_keeps: "x \<in> set xs \<Longrightarrow> \<not> P x \<Longrightarrow> x \<in> set (dropWhile P xs)"
  by (induction xs) auto

lemma strip_keeps: "c \<in> set s \<Longrightarrow> \<not> is_space c \<Longrightarrow> c \<in> set (strip s)"
  by (simp add: strip_def set_dropWhile_keeps)

lemma split_sep1_two:
  assumes "contains ''='' line"
  obtains key val where "split_sep1 ''='' (strip line) = [key, val]"
proof -
  have "CHR ''='' \<in> set (strip line)"
    using assms by (intro strip_keeps) (simp_all add: contains_char is_space_def)
  then obtain b a where "find_sep ''='' (strip line) = Some (b, a)"
    using find_sep_char [of "CHR ''=''" "strip line"] by (cases "find_sep ''='' (strip line)") auto
  then show ?thesis
    using that by (simp add: split_sep1_def)
qed

lemma human_time_line_unknown_eq:
  assumes "map_of tasks tid = None"
  obtains st0 where "human_time_line pfloat pint dur tid line (st, tasks) = (st0, tasks)"
  using human_time_line_unknown [OF assms, of pfloat pint dur line st]
  by (cases "human_time_line pfloat pint dur tid line (st, tasks)") auto

lemma compression_handle_line_unknown:
  assumes "map_of tasks tid = None"
  shows "fst (compression_handle_line pfloat pint dur tid line (st, tasks)) = None
       \<and> snd (snd (compression_handle_line pfloat pint dur tid line (st, tasks))) = tasks"
proof -
  obtain st0 where h: "human_time_line pfloat pint dur tid line (st, tasks) = (st0, tasks)"
    using assms by (rule human_time_line_unknown_eq)
  show ?thesis
  proof (cases "contains ''='' line")
    case False
    then show ?thesis
      by (simp add: compression_handle_line_def h)
  next
    case True
    then obtain key val where kv: "split_sep1 ''='' (strip line) = [key, val]"
      by (rule split_sep1_two)
    have "fst (compression_handle_line pfloat pint dur tid line (st, tasks)) = None"
      unfolding compression_handle_line_def h
      using True kv by (simp add: Let_def split: option.splits list.splits)
    moreover have "snd (snd (compression_handle_line pfloat pint dur tid line (st, tasks))) = tasks"
      unfolding compression_handle_line_def h
      using True kv assms by (simp add: Let_def set_progress_unknown split: option.splits list.splits)
    ultimately show ?thesis by simp
  qed
qed

lemma convert_handle_line_unknown:
  assumes "map_of tasks tid = None"
  shows "fst (convert_handle_line pfloat pint dur tid line (st, tasks)) = None
       \<and> snd (snd (convert_handle_line pfloat pint dur tid line (st, tasks))) = tasks"
proof -
  obtain st0 where h: "human_time_line pfloat pint dur tid line (st, tasks) = (st0, tasks)"
    using assms by (rule human_time_line_unknown_eq)
  show ?thesis
  proof (cases "contains ''='' line")
    case False
    then show ?thesis
      by (simp add: convert_handle_line_def h)
  next
    case True
    then obtain key val where kv: "split_sep1 ''='' (strip line) = [key, val]"
      by (rule split_sep1_two)
    have "fst (convert_handle_line pfloat pint dur tid line (st, tasks)) = None"
      unfolding convert_handle_line_def h
      using True kv by (simp add: Let_def split: option.splits)
    moreover have "snd (snd (convert_handle_line pfloat pint dur tid line (st, tasks))) = tasks"
      unfolding convert_handle_line_def h
      using True kv assms by (simp add: Let_def set_progress_unknown split: option.splits)
    ultimately show ?thesis by simp
  qed
qed

text \<open>
  Claim C10.  A progress signal for an identifier that is not in the registry changes
  nothing and raises nothing: the download hook returns at once, and the line handlers
  of the compression and conversion runners, which look the task up again at every
  write, leave the registry as it is, whatever the line.
\<close>

theorem unknown_task_signal_is_noop:
  fixes st :: compress_parse_state and vst :: parse_state
  shows
  "(map_of dtasks tid = None \<longrightarrow> progress_hook F pint tid d dtasks = (None, dtasks))
 \<and> (map_of ctasks tid = None \<longrightarrow>
       fst (compression_handle_line pfloat pint dur tid line (st, ctasks)) = None
     \<and> snd (snd (compression_handle_line pfloat pint dur tid line (st, ctasks))) = ctasks)
 \<and> (map_of vtasks tid = None \<longrightarrow>
       fst (convert_handle_line pfloat pint dur tid line (vst, vtasks)) = None
     \<and> snd (snd (convert_handle_line pfloat pint dur tid line (vst, vtasks))) = vtasks)"
  using compression_handle_line_unknown [of ctasks tid pfloat pint dur line st]
    convert_handle_line_unknown [of vtasks tid pfloat pint dur line vst]
  by (simp add: progress_hook_def)

theorem unknown_task_signal_is_noop_witness:
  "progress_hook sample_format decimal_int ''zz''
     [(''status'', PyStr ''downloading''), (''downloaded_bytes'', PyNum 10), (''total_bytes'', PyNum 100)]
     [(''d1'', sample_download DownloadStatus.DOWNLOADING)]
   = (None, [(''d1'', sample_download DownloadStatus.DOWNLOADING)])
 \<and> fst (compression_handle_line decimal_float decimal_int (Some 10000) ''zz'' ''out_time_ms=5000''
          (fresh_state, [(''c1'', sample_compression)])) = None
 \<and> snd (snd (compression_handle_line decimal_float decimal_int (Some 10000) ''zz'' ''out_time_ms=5000''
          (fresh_state, [(''c1'', sample_compression)]))) = [(''c1'', sample_compression)]
 \<and> fst (convert_handle_line decimal_float decimal_int None ''zz'' ''frame=1 time=00:00:01.00''
          (fresh_convert_state, [(''v1'', sample_convert)])) = None
 \<and> snd (snd (convert_handle_line decimal_float decimal_int None ''zz'' ''frame=1 time=00:00:01.00''
          (fresh_convert_state, [(''v1'', sample_convert)]))) = [(''v1'', sample_convert)]"
proof -
  have d: "map_of [(''d1'', sample_download DownloadStatus.DOWNLOADING)] ''zz'' = None"
    and c: "map_of [(''c1'', sample_compression)] ''zz'' = None"
    and v: "map_of [(''v1'', sample_convert)] ''zz'' = None"
    by simp_all
  note D = unknown_task_signal_is_noop [THEN conjunct1, THEN mp, OF d]
  note C = unknown_task_signal_is_noop [THEN conjunct2, THEN conjunct1, THEN mp, OF c]
  note V = unknown_task_signal_is_noop [THEN conjunct2, THEN conjunct2, THEN mp, OF v]
  show ?thesis
    using D [of sample_format decimal_int]
      C [of decimal_float decimal_int "Some 10000" "''out_time_ms=5000''" fresh_state]
      V [of decimal_float decimal_int None "''frame=1 time=00:00:01.00''" fresh_convert_state]
    by simp
qed

section \<open>The range of the progress field\<close>

text \<open>
  Claim C4 fails in the code.  The download hook stores \<open>downloaded / total * 100\<close>
  without a bound: with 150 bytes downloaded against an estimated total of 100 the
  progress becomes 150.  The line handlers bound the progress by 100 from above only:
  an elapsed time of -5000000 microseconds against a duration of 10000 ms gives a
  progress of -50.
\<close>

theorem progress_leaves_range:
  "map_option progress (map_of (snd (progress_hook F pint ''d1''
       [(''status'', PyStr ''downloading''), (''downloaded_bytes'', PyNum 150),
        (''total_bytes_estimate'', PyNum 100)]
       [(''d1'', sample_download DownloadStatus.DOWNLOADING)])) ''d1'') = Some 150
 \<and> map_option progress (map_of (snd (snd
       (compression_handle_line decimal_float pint (Some 10000) ''c1'' ''out_time_us=-5000000''
          (fresh_state, [(''c1'', sample_compression)])))) ''c1'') = Some (- 50)"
proof -
  have hook: "map_option progress (map_of (snd (progress_hook F pint ''d1''
       [(''status'', PyStr ''downloading''), (''downloaded_bytes'', PyNum 150),
        (''total_bytes_estimate'', PyNum 100)]
       [(''d1'', sample_download DownloadStatus.DOWNLOADING)])) ''d1'') = Some 150"
    by (simp add: progress_hook_def dict_get_def py_or_def truthy_def hook_ratio_def
        format_speed_def format_eta_def sample_download_def Let_def)
  have line: "contains ''='' ''out_time_us=-5000000''"
    "split_sep1 ''='' (strip ''out_time_us=-5000000'') = [''out_time_us'', ''-5000000'']"
    by code_simp+
  have num: "decimal_float ''-5000000'' = Some (- 5000000)"
    by (simp add: decimal_float_def strip_def is_space_def unsigned_decimal_def is_digit_def)
  have c: "map_of [(''c1'', sample_compression)] ''c1'' = Some sample_compression"
    by simp
  from tracked_compression_us(3) [where pfloat = decimal_float and pint = pint and dur = "Some 10000"
      and st = fresh_state and tasks = "[(''c1'', sample_compression)]" and tid = "''c1''"
      and task = sample_compression and line = "''out_time_us=-5000000''" and v = "''-5000000''"
      and raw = "- 5000000", OF c line num]
  have "map_option progress (map_of (snd (snd
       (compression_handle_line decimal_float pint (Some 10000) ''c1'' ''out_time_us=-5000000''
          (fresh_state, [(''c1'', sample_compression)])))) ''c1'') = Some (- 50)"
    by (simp add: compute_progress_known)
  with hook show ?thesis by simp
qed

section \<open>Admission of compression jobs\<close>

text \<open>
  Claim C1 fails in the code.  \<open>start_compression\<close> scans under one acquisition of the
  lock and registers the task under a second one, and it registers the task as
  \<open>PENDING\<close>, a status the scan does not look for.  Two submissions in a row, the second
  before the runner of the first has written \<open>COMPRESSING\<close>, are both admitted, and both
  runners then set \<open>COMPRESSING\<close>; only a third submission, made after that, is rejected
  with 409.
\<close>

theorem two_compressions_admitted:
  "start_compression (\<lambda>p. True) ''a1'' ''/v/a.mov'' None [] =
     ([Acquire compression_lock, Release compression_lock,
       Acquire compression_lock, Release compression_lock],
      Inr [(''task_id'', ''a1''), (''status'', ''started''),
           (''message'', ''Compression initiated. Track with /compress/status/{task_id}'')],
      [(''a1'', new_compression_task ''a1'' ''/v/a.mov'' None)])
 \<and> start_compression (\<lambda>p. True) ''b2'' ''/v/b.mov'' None
       [(''a1'', new_compression_task ''a1'' ''/v/a.mov'' None)] =
     ([Acquire compression_lock, Release compression_lock,
       Acquire compression_lock, Release compression_lock],
      Inr [(''task_id'', ''b2''), (''status'', ''started''),
           (''message'', ''Compression initiated. Track with /compress/status/{task_id}'')],
      [(''a1'', new_compression_task ''a1'' ''/v/a.mov'' None),
       (''b2'', new_compression_task ''b2'' ''/v/b.mov'' None)])
 \<and> map (\<lambda>(tid, task). (tid, status task))
       (begin_compression ''b2'' ''/v/b-compressed.mp4''
          (begin_compression ''a1'' ''/v/a-compressed.mp4''
             [(''a1'', new_compression_task ''a1'' ''/v/a.mov'' None),
              (''b2'', new_compression_task ''b2'' ''/v/b.mov'' None)])) =
     [(''a1'', CompressionStatus.COMPRESSING), (''b2'', CompressionStatus.COMPRESSING)]
 \<and> fst (snd (start_compression (\<lambda>p. True) ''c3'' ''/v/c.mov'' None
       (begin_compression ''b2'' ''/v/b-compressed.mp4''
          (begin_compression ''a1'' ''/v/a-compressed.mp4''
             [(''a1'', new_compression_task ''a1'' ''/v/a.mov'' None),
              (''b2'', new_compression_task ''b2'' ''/v/b.mov'' None)])))) =
     Inl (HTTPException 409 ''Ya hay una compresion en curso'')"
  by (simp add: start_compression_def compression_running_def begin_compression_def
      new_compression_task_def)

section \<open>Locks held across blocking calls\<close>

lemma lock_free_hooks:
  "lock_free held (concat (replicate n [Acquire l, Release l]) @ es) = lock_free held es"
  by (induction n) simp_all

text \<open>
  Claim C9 does not hold as stated: cancelling a compression or a conversion that has a
  process terminates it and waits for it inside the \<^verbatim>\<open>with\<close> block of the registry
  lock.
\<close>

theorem cancel_waits_under_lock:
  "fst (cancel_compression True ''c1'' [(''c1'', sample_compression)]) =
     [Acquire compression_lock, Call process_terminate, Call process_wait, Release compression_lock]
 \<and> \<not> lock_free [] (fst (cancel_compression True ''c1'' [(''c1'', sample_compression)]))
 \<and> \<not> lock_free [] (fst (cancel_convert True ''v1'' [(''v1'', sample_convert)]))"
  by (simp add: cancel_compression_def cancel_convert_def stop_process_def blocking_def
      sample_compression_def sample_convert_def)

text \<open>
  Claim C9, amended.  The download worker makes the pre-fetch call and the download call
  with no lock held, and the compression and conversion runners wait for their process
  with no lock held.  The cancellation of a compression or conversion job takes the
  registry lock of its kind and, when the job is in progress and has a process,
  terminates it, waits for it (up to five seconds) and, if the wait times out, kills
  it, all before it releases the lock; a cancellation is free of blocking calls under
  the lock exactly when it is refused or the task has no process.
\<close>

theorem blocking_calls_and_locks:
  "lock_free [] (download_worker_events makedirs_ok n)
 \<and> lock_free [] (run_compression_events ffmpeg_found)
 \<and> lock_free [] (run_convert_events ffmpeg_found)
 \<and> (\<forall>task pid. map_of ctasks tid = Some task \<and> status task = CompressionStatus.COMPRESSING
        \<and> process task = Some pid \<longrightarrow>
        fst (cancel_compression exits_in_time tid ctasks) =
          [Acquire compression_lock, Call process_terminate, Call process_wait]
          @ (if exits_in_time then [] else [Call process_kill]) @ [Release compression_lock])
 \<and> (\<forall>task pid. map_of vtasks tid = Some task \<and> status task = ''processing''
        \<and> process task = Some pid \<longrightarrow>
        fst (cancel_convert exits_in_time tid vtasks) =
          [Acquire convert_lock, Call process_terminate, Call process_wait]
          @ (if exits_in_time then [] else [Call process_kill]) @ [Release convert_lock])
 \<and> (lock_free [] (fst (cancel_compression exits_in_time tid ctasks)) \<longleftrightarrow>
       (\<forall>task. map_of ctasks tid = Some task \<and> status task = CompressionStatus.COMPRESSING \<longrightarrow>
          process task = None))
 \<and> (lock_free [] (fst (cancel_convert exits_in_time tid vtasks)) \<longleftrightarrow>
       (\<forall>task. map_of vtasks tid = Some task \<and> status task = ''processing'' \<longrightarrow>
          process task = None))"
proof (intro conjI)
  show "lock_free [] (download_worker_events makedirs_ok n)"
    by (simp add: download_worker_events_def blocking_def lock_free_hooks)
  show "lock_free [] (run_compression_events ffmpeg_found)"
    by (simp add: run_compression_events_def blocking_def)
  show "lock_free [] (run_convert_events ffmpeg_found)"
    by (simp add: run_convert_events_def blocking_def)
  show "\<forall>task pid. map_of ctasks tid = Some task \<and> status task = CompressionStatus.COMPRESSING
        \<and> process task = Some pid \<longrightarrow>
        fst (cancel_compression exits_in_time tid ctasks) =
          [Acquire compression_lock, Call process_terminate, Call process_wait]
          @ (if exits_in_time then [] else [Call process_kill]) @ [Release compression_lock]"
    by (simp add: cancel_compression_def stop_process_def)
  show "\<forall>task pid. map_of vtasks tid = Some task \<and> status task = ''processing''
        \<and> process task = Some pid \<longrightarrow>
        fst (cancel_convert exits_in_time tid vtasks) =
          [Acquire convert_lock, Call process_terminate, Call process_wait]
          @ (if exits_in_time then [] else [Call process_kill]) @ [Release convert_lock]"
    by (simp add: cancel_convert_def stop_process_def)
  show "lock_free [] (fst (cancel_compression exits_in_time tid ctasks)) \<longleftrightarrow>
       (\<forall>task. map_of ctasks tid = Some task \<and> status task = CompressionStatus.COMPRESSING \<longrightarrow>
          process task = None)"
    by (auto simp: cancel_compression_def stop_process_def blocking_def split: option.splits)
  show "lock_free [] (fst (cancel_convert exits_in_time tid vtasks)) \<longleftrightarrow>
       (\<forall>task. map_of vtasks tid = Some task \<and> status task = ''processing'' \<longrightarrow>
          process task = None)"
    by (auto simp: cancel_convert_def stop_process_def blocking_def split: option.splits)
qed

theorem blocking_calls_and_locks_witness:
  "fst (cancel_compression False ''c1'' [(''c1'', sample_compression)]) =
     [Acquire compression_lock, Call process_terminate, Call process_wait, Call process_kill,
      Release compression_lock]
 \<and> fst (cancel_convert True ''v1'' [(''v1'', sample_convert)]) =
     [Acquire convert_lock, Call process_terminate, Call process_wait, Release convert_lock]
 \<and> lock_free [] (fst (cancel_compression True ''c1'' [(''c1'', sample_compression\<lparr>process := None\<rparr>)]))
 \<and> lock_free [] (download_worker_events True 2)"
proof -
  have c: "map_of [(''c1'', sample_compression)] ''c1'' = Some sample_compression
      \<and> status sample_compression = CompressionStatus.COMPRESSING \<and> process sample_compression = Some 1"
    and v: "map_of [(''v1'', sample_convert)] ''v1'' = Some sample_convert
      \<and> status sample_convert = ''processing'' \<and> process sample_convert = Some 2"
    by (simp_all add: sample_compression_def sample_convert_def)
  note T = blocking_calls_and_locks [where ctasks = "[(''c1'', sample_compression)]" and tid = "''c1''"
      and exits_in_time = False]
  note U = blocking_calls_and_locks [where vtasks = "[(''v1'', sample_convert)]" and tid = "''v1''"
      and exits_in_time = True]
  note W = blocking_calls_and_locks [where ctasks = "[(''c1'', sample_compression\<lparr>process := None\<rparr>)]"
      and tid = "''c1''" and exits_in_time = True and makedirs_ok = True and n = 2]
  note C = T [THEN conjunct2, THEN conjunct2, THEN conjunct2, THEN conjunct1, THEN spec, THEN spec,
      THEN mp, OF c]
  note V = U [THEN conjunct2, THEN conjunct2, THEN conjunct2, THEN conjunct2, THEN conjunct1,
      THEN spec, THEN spec, THEN mp, OF v]
  from C V W show ?thesis by simp
qed

section \<open>Properties of the event streams\<close>

lemma event_loop_nonterminal_run:
  assumes "k \<le> n"
    and "\<forall>j. k \<le> j \<and> j < n \<longrightarrow> (\<exists>seen later. poll j = Some (seen, later) \<and> \<not> terminal later)"
  shows "event_loop terminal snapshot poll k emitted =
         event_loop terminal snapshot poll n
           (emitted @ map (\<lambda>j. snapshot (fst (the (poll j)))) [k..<n])"
  using assms
proof (induction n rule: dec_induct)
  case base
  then show ?case by simp
next
  case (step m)
  then obtain seen later where t: "poll m = Some (seen, later)" "\<not> terminal later"
    by auto
  have "event_loop terminal snapshot poll k emitted =
        event_loop terminal snapshot poll m
          (emitted @ map (\<lambda>j. snapshot (fst (the (poll j)))) [k..<m])"
    using step by simp
  also have "\<dots> = event_loop terminal snapshot poll (Suc m)
                    ((emitted @ map (\<lambda>j. snapshot (fst (the (poll j)))) [k..<m]) @ [snapshot seen])"
    by (subst event_loop.simps) (simp add: t)
  finally show ?case
    using step.hyps t by simp
qed

lemma event_loop_until_terminal:
  assumes "1 \<le> n"
    and "\<forall>j. 1 \<le> j \<and> j < n \<longrightarrow> (\<exists>seen later. poll j = Some (seen, later) \<and> \<not> terminal later)"
    and "poll n = Some (last_seen, last_later)" "terminal last_later"
  shows "\<exists>tasks. event_loop terminal snapshot poll 1 [] = Some (map snapshot tasks)
            \<and> length tasks = n \<and> (\<forall>i<n. map_option fst (poll (i + 1)) = Some (tasks ! i))
            \<and> last tasks = last_seen"
proof -
  let ?tasks = "map (\<lambda>j. fst (the (poll j))) [1..<Suc n]"
  have "event_loop terminal snapshot poll 1 [] =
        event_loop terminal snapshot poll n ([] @ map (\<lambda>j. snapshot (fst (the (poll j)))) [1..<n])"
    using assms(1,2) by (rule event_loop_nonterminal_run)
  also have "\<dots> = Some (map (\<lambda>j. snapshot (fst (the (poll j)))) [1..<n] @ [snapshot last_seen])"
    by (subst event_loop.simps) (simp add: assms(3,4))
  also have "\<dots> = Some (map snapshot ?tasks)"
    using assms(1,3) by (simp add: comp_def)
  finally have "event_loop terminal snapshot poll 1 [] = Some (map snapshot ?tasks)" .
  moreover have "length ?tasks = n"
    by simp
  moreover have "\<forall>i<n. map_option fst (poll (i + 1)) = Some (?tasks ! i)"
  proof (intro allI impI)
    fix i assume i: "i < n"
    then have nth: "?tasks ! i = fst (the (poll (Suc i)))"
      by (simp add: nth_map_upt del: upt_Suc)
    show "map_option fst (poll (i + 1)) = Some (?tasks ! i)"
    proof (cases "Suc i < n")
      case True
      then have "1 \<le> Suc i \<and> Suc i < n" by simp
      with assms(2) obtain seen later where "poll (Suc i) = Some (seen, later)" by blast
      then show ?thesis using nth by simp
    next
      case False
      then have "Suc i = n" using i by simp
      then show ?thesis using nth assms(3) by simp
    qed
  qed
  moreover have "last ?tasks = last_seen"
    using assms(1,3) by simp
  ultimately show ?thesis by blast
qed

lemma event_loop_until_gone:
  assumes "1 \<le> n"
    and "\<forall>j. 1 \<le> j \<and> j < n \<longrightarrow> (\<exists>seen later. poll j = Some (seen, later) \<and> \<not> terminal later)"
    and "poll n = None"
  shows "\<exists>tasks. event_loop terminal snapshot poll 1 [] = Some (map snapshot tasks)
            \<and> length tasks = n - 1 \<and> (\<forall>i<n - 1. map_option fst (poll (i + 1)) = Some (tasks ! i))"
proof -
  let ?tasks = "map (\<lambda>j. fst (the (poll j))) [1..<n]"
  have "event_loop terminal snapshot poll 1 [] =
        event_loop terminal snapshot poll n ([] @ map (\<lambda>j. snapshot (fst (the (poll j)))) [1..<n])"
    using assms(1,2) by (rule event_loop_nonterminal_run)
  also have "\<dots> = Some (map (\<lambda>j. snapshot (fst (the (poll j)))) [1..<n])"
    by (subst event_loop.simps) (simp add: assms(3))
  also have "\<dots> = Some (map snapshot ?tasks)"
    by (simp add: comp_def)
  finally have "event_loop terminal snapshot poll 1 [] = Some (map snapshot ?tasks)" .
  moreover have "length ?tasks = n - 1"
    by simp
  moreover have "\<forall>i<n - 1. map_option fst (poll (i + 1)) = Some (?tasks ! i)"
  proof (intro allI impI)
    fix i assume i: "i < n - 1"
    then have nth: "?tasks ! i = fst (the (poll (Suc i)))"
      by (simp add: nth_map_upt)
    from i have "1 \<le> Suc i \<and> Suc i < n" by simp
    with assms(2) obtain seen later where "poll (Suc i) = Some (seen, later)" by blast
    then show "map_option fst (poll (i + 1)) = Some (?tasks ! i)" using nth by simp
  qed
  ultimately show ?thesis by blast
qed

lemma sample_download_snapshot:
  "download_snapshot (sample_download st) =
     (''progress'',
      [(''task_id'', PyStr ''d1''), (''status'', PyStr (download_status_value st)),
       (''progress'', PyNum 0), (''speed'', PyStr ''0 B/s''), (''eta'', PyStr ''N/A''),
       (''filename'', PyStr ''''), (''title'', PyStr ''''), (''error'', PyNone)])"
  by (simp add: download_snapshot_def sample_download_def opt_str_def)

lemma sample_compression_snapshot:
  "compression_snapshot (sample_compression\<lparr>progress := p\<rparr>) =
     (''progress'',
      [(''task_id'', PyStr ''c1''), (''status'', PyStr ''compressing''), (''progress'', PyNum p),
       (''eta'', PyStr ''N/A''), (''output_path'', PyStr ''/v/clip-compressed.mp4''),
       (''error'', PyNone)])"
  by (simp add: compression_snapshot_def sample_compression_def opt_str_def)

text \<open>
  Claim C8 does not hold as stated.  The generator builds the snapshot before the yield
  and reads the status again after it.  When the worker completes the task in between,
  the stream ends at that tick with a last event that still shows the earlier status,
  and the terminal snapshot is never emitted: here the task is \<open>PENDING\<close> at tick 1, and
  at tick 2 it is read as \<open>DOWNLOADING\<close> (or at 40 percent of a compression) for the
  snapshot and as \<open>COMPLETED\<close> by the stop test.
\<close>

theorem stream_ends_without_terminal_snapshot:
  "task_events (Some (sample_download DownloadStatus.PENDING))
     (\<lambda>k. if k = 1
           then Some (sample_download DownloadStatus.PENDING, sample_download DownloadStatus.PENDING)
           else Some (sample_download DownloadStatus.DOWNLOADING, sample_download DownloadStatus.COMPLETED))
   = Inr (Some
      [(''progress'',
        [(''task_id'', PyStr ''d1''), (''status'', PyStr ''pending''),
         (''progress'', PyNum 0), (''speed'', PyStr ''0 B/s''), (''eta'', PyStr ''N/A''),
         (''filename'', PyStr ''''), (''title'', PyStr ''''), (''error'', PyNone)]),
       (''progress'',
        [(''task_id'', PyStr ''d1''), (''status'', PyStr ''downloading''),
         (''progress'', PyNum 0), (''speed'', PyStr ''0 B/s''), (''eta'', PyStr ''N/A''),
         (''filename'', PyStr ''''), (''title'', PyStr ''''), (''error'', PyNone)])])
 \<and> compression_events (Some sample_compression)
     (\<lambda>k. Some (sample_compression\<lparr>progress := 40\<rparr>,
                sample_compression\<lparr>status := CompressionStatus.COMPLETED, progress := 100\<rparr>))
   = Inr (Some
      [(''progress'',
        [(''task_id'', PyStr ''c1''), (''status'', PyStr ''compressing''), (''progress'', PyNum 40),
         (''eta'', PyStr ''N/A''), (''output_path'', PyStr ''/v/clip-compressed.mp4''),
         (''error'', PyNone)])])"
proof -
  have sp: "status (sample_download DownloadStatus.PENDING) = DownloadStatus.PENDING"
    and sc: "status (sample_download DownloadStatus.COMPLETED) = DownloadStatus.COMPLETED"
    by (simp_all add: sample_download_def)
  have d: "task_events (Some (sample_download DownloadStatus.PENDING))
       (\<lambda>k. if k = 1
             then Some (sample_download DownloadStatus.PENDING, sample_download DownloadStatus.PENDING)
             else Some (sample_download DownloadStatus.DOWNLOADING, sample_download DownloadStatus.COMPLETED))
     = Inr (Some [download_snapshot (sample_download DownloadStatus.PENDING),
                  download_snapshot (sample_download DownloadStatus.DOWNLOADING)])"
    unfolding task_events_def option.case
    by (subst event_loop.simps, simp add: sp, subst event_loop.simps, simp add: sc)
  have c: "compression_events (Some sample_compression)
       (\<lambda>k. Some (sample_compression\<lparr>progress := 40\<rparr>,
                  sample_compression\<lparr>status := CompressionStatus.COMPLETED, progress := 100\<rparr>))
     = Inr (Some [compression_snapshot (sample_compression\<lparr>progress := 40\<rparr>)])"
    unfolding compression_events_def option.case
    by (subst event_loop.simps) simp
  show ?thesis
    unfolding d c sample_download_snapshot sample_compression_snapshot
    by simp
qed

text \<open>
  Claim C8, amended.  Let the stop test of the ticks \<open>1, \<dots>, n - 1\<close> read a status that
  is not terminal.  If the stop test of tick \<open>n\<close> reads a terminal status (\<open>COMPLETED\<close> or
  \<open>ERROR\<close>), the generator returns after emitting exactly \<open>n\<close> events, one per tick, the
  \<open>i\<close>-th being the snapshot built at tick \<open>i\<close> before its yield, and nothing follows
  the \<open>n\<close>-th; that last event shows the terminal status when the status was the same
  at the two reads of tick \<open>n\<close>.  If the lookup of tick \<open>n\<close> finds no task, the generator
  returns after the \<open>n - 1\<close> events of the earlier ticks.  This holds for the download
  stream and for the compression stream.
\<close>

theorem event_stream_ends_at_stop_test:
  "(\<forall>n first_task last_seen last_later.
       dfirst = Some first_task \<and> 1 \<le> n
     \<and> (\<forall>j. 1 \<le> j \<and> j < n \<longrightarrow>
           (\<exists>seen later. dpoll j = Some (seen, later)
               \<and> status later \<notin> {DownloadStatus.COMPLETED, DownloadStatus.ERROR}))
     \<and> dpoll n = Some (last_seen, last_later)
     \<and> status last_later \<in> {DownloadStatus.COMPLETED, DownloadStatus.ERROR} \<longrightarrow>
       (\<exists>tasks. task_events dfirst dpoll = Inr (Some (map download_snapshot tasks))
           \<and> length tasks = n \<and> (\<forall>i<n. map_option fst (dpoll (i + 1)) = Some (tasks ! i))
           \<and> last tasks = last_seen
           \<and> (status last_seen = status last_later \<longrightarrow>
                status (last tasks) \<in> {DownloadStatus.COMPLETED, DownloadStatus.ERROR})))
 \<and> (\<forall>n first_task.
       dfirst = Some first_task \<and> 1 \<le> n
     \<and> (\<forall>j. 1 \<le> j \<and> j < n \<longrightarrow>
           (\<exists>seen later. dpoll j = Some (seen, later)
               \<and> status later \<notin> {DownloadStatus.COMPLETED, DownloadStatus.ERROR}))
     \<and> dpoll n = None \<longrightarrow>
       (\<exists>tasks. task_events dfirst dpoll = Inr (Some (map download_snapshot tasks))
           \<and> length tasks = n - 1
           \<and> (\<forall>i<n - 1. map_option fst (dpoll (i + 1)) = Some (tasks ! i))))
 \<and> (\<forall>n first_task last_seen last_later.
       cfirst = Some first_task \<and> 1 \<le> n
     \<and> (\<forall>j. 1 \<le> j \<and> j < n \<longrightarrow>
           (\<exists>seen later. cpoll j = Some (seen, later)
               \<and> status later \<notin> {CompressionStatus.COMPLETED, CompressionStatus.ERROR}))
     \<and> cpoll n = Some (last_seen, last_later)
     \<and> status last_later \<in> {CompressionStatus.COMPLETED, CompressionStatus.ERROR} \<longrightarrow>
       (\<exists>tasks. compression_events cfirst cpoll = Inr (Some (map compression_snapshot tasks))
           \<and> length tasks = n \<and> (\<forall>i<n. map_option fst (cpoll (i + 1)) = Some (tasks ! i))
           \<and> last tasks = last_seen
           \<and> (status last_seen = status last_later \<longrightarrow>
                status (last tasks) \<in> {CompressionStatus.COMPLETED, CompressionStatus.ERROR})))
 \<and> (\<forall>n first_task.
       cfirst = Some first_task \<and> 1 \<le> n
     \<and> (\<forall>j. 1 \<le> j \<and> j < n \<longrightarrow>
           (\<exists>seen later. cpoll j = Some (seen, later)
               \<and> status later \<notin> {CompressionStatus.COMPLETED, CompressionStatus.ERROR}))
     \<and> cpoll n = None \<longrightarrow>
       (\<exists>tasks. compression_events cfirst cpoll = Inr (Some (map compression_snapshot tasks))
           \<and> length tasks = n - 1
           \<and> (\<forall>i<n - 1. map_option fst (cpoll (i + 1)) = Some (tasks ! i))))"
proof (intro conjI allI impI; elim conjE)
  fix n first_task last_seen last_later
  assume a: "dfirst = Some first_task" "1 \<le> n"
    "\<forall>j. 1 \<le> j \<and> j < n \<longrightarrow>
       (\<exists>seen later. dpoll j = Some (seen, later)
           \<and> status later \<notin> {DownloadStatus.COMPLETED, DownloadStatus.ERROR})"
    "dpoll n = Some (last_seen, last_later)"
    "status last_later \<in> {DownloadStatus.COMPLETED, DownloadStatus.ERROR}"
  from event_loop_until_terminal [of n dpoll
      "\<lambda>later. status later \<in> {DownloadStatus.COMPLETED, DownloadStatus.ERROR}"
      last_seen last_later download_snapshot, OF a(2,3,4,5)]
  obtain tasks where t:
    "event_loop (\<lambda>later. status later \<in> {DownloadStatus.COMPLETED, DownloadStatus.ERROR})
       download_snapshot dpoll 1 [] = Some (map download_snapshot tasks)"
    "length tasks = n" "\<forall>i<n. map_option fst (dpoll (i + 1)) = Some (tasks ! i)"
    "last tasks = last_seen"
    by blast
  have "task_events dfirst dpoll = Inr (Some (map download_snapshot tasks))"
    unfolding task_events_def a(1) option.case t(1) ..
  with t a(5) show "\<exists>tasks. task_events dfirst dpoll = Inr (Some (map download_snapshot tasks))
       \<and> length tasks = n \<and> (\<forall>i<n. map_option fst (dpoll (i + 1)) = Some (tasks ! i))
       \<and> last tasks = last_seen
       \<and> (status last_seen = status last_later \<longrightarrow>
            status (last tasks) \<in> {DownloadStatus.COMPLETED, DownloadStatus.ERROR})"
    by (intro exI [of _ tasks]) simp
next
  fix n first_task
  assume a: "dfirst = Some first_task" "1 \<le> n"
    "\<forall>j. 1 \<le> j \<and> j < n \<longrightarrow>
       (\<exists>seen later. dpoll j = Some (seen, later)
           \<and> status later \<notin> {DownloadStatus.COMPLETED, DownloadStatus.ERROR})"
    "dpoll n = None"
  from event_loop_until_gone [of n dpoll
      "\<lambda>later. status later \<in> {DownloadStatus.COMPLETED, DownloadStatus.ERROR}"
      download_snapshot, OF a(2,3,4)]
  obtain tasks where t:
    "event_loop (\<lambda>later. status later \<in> {DownloadStatus.COMPLETED, DownloadStatus.ERROR})
       download_snapshot dpoll 1 [] = Some (map download_snapshot tasks)"
    "length tasks = n - 1" "\<forall>i<n - 1. map_option fst (dpoll (i + 1)) = Some (tasks ! i)"
    by blast
  have "task_events dfirst dpoll = Inr (Some (map download_snapshot tasks))"
    unfolding task_events_def a(1) option.case t(1) ..
  with t show "\<exists>tasks. task_events dfirst dpoll = Inr (Some (map download_snapshot tasks))
       \<and> length tasks = n - 1 \<and> (\<forall>i<n - 1. map_option fst (dpoll (i + 1)) = Some (tasks ! i))"
    by (intro exI [of _ tasks]) simp
next
  fix n first_task last_seen last_later
  assume a: "cfirst = Some first_task" "1 \<le> n"
    "\<forall>j. 1 \<le> j \<and> j < n \<longrightarrow>
       (\<exists>seen later. cpoll j = Some (seen, later)
           \<and> status later \<notin> {CompressionStatus.COMPLETED, CompressionStatus.ERROR})"
    "cpoll n = Some (last_seen, last_later)"
    "status last_later \<in> {CompressionStatus.COMPLETED, CompressionStatus.ERROR}"
  from event_loop_until_terminal [of n cpoll
      "\<lambda>later. status later \<in> {CompressionStatus.COMPLETED, CompressionStatus.ERROR}"
      last_seen last_later compression_snapshot, OF a(2,3,4,5)]
  obtain tasks where t:
    "event_loop (\<lambda>later. status later \<in> {CompressionStatus.COMPLETED, CompressionStatus.ERROR})
       compression_snapshot cpoll 1 [] = Some (map compression_snapshot tasks)"
    "length tasks = n" "\<forall>i<n. map_option fst (cpoll (i + 1)) = Some (tasks ! i)"
    "last tasks = last_seen"
    by blast
  have "compression_events cfirst cpoll = Inr (Some (map compression_snapshot tasks))"
    unfolding compression_events_def a(1) option.case t(1) ..
  with t a(5) show "\<exists>tasks. compression_events cfirst cpoll = Inr (Some (map compression_snapshot tasks))
       \<and> length tasks = n \<and> (\<forall>i<n. map_option fst (cpoll (i + 1)) = Some (tasks ! i))
       \<and> last tasks = last_seen
       \<and> (status last_seen = status last_later \<longrightarrow>
            status (last tasks) \<in> {CompressionStatus.COMPLETED, CompressionStatus.ERROR})"
    by (intro exI [of _ tasks]) simp
next
  fix n first_task
  assume a: "cfirst = Some first_task" "1 \<le> n"
    "\<forall>j. 1 \<le> j \<and> j < n \<longrightarrow>
       (\<exists>seen later. cpoll j = Some (seen, later)
           \<and> status later \<notin> {CompressionStatus.COMPLETED, CompressionStatus.ERROR})"
    "cpoll n = None"
  from event_loop_until_gone [of n cpoll
      "\<lambda>later. status later \<in> {CompressionStatus.COMPLETED, CompressionStatus.ERROR}"
      compression_snapshot, OF a(2,3,4)]
  obtain tasks where t:
    "event_loop (\<lambda>later. status later \<in> {CompressionStatus.COMPLETED, CompressionStatus.ERROR})
       compression_snapshot cpoll 1 [] = Some (map compression_snapshot tasks)"
    "length tasks = n - 1" "\<forall>i<n - 1. map_option fst (cpoll (i + 1)) = Some (tasks ! i)"
    by blast
  have "compression_events cfirst cpoll = Inr (Some (map compression_snapshot tasks))"
    unfolding compression_events_def a(1) option.case t(1) ..
  with t show "\<exists>tasks. compression_events cfirst cpoll = Inr (Some (map compression_snapshot tasks))
       \<and> length tasks = n - 1 \<and> (\<forall>i<n - 1. map_option fst (cpoll (i + 1)) = Some (tasks ! i))"
    by (intro exI [of _ tasks]) simp
qed

theorem event_stream_ends_at_stop_test_witness:
  "task_events (Some (sample_download DownloadStatus.PENDING))
     (\<lambda>k. if k < 3
           then Some (sample_download DownloadStatus.PENDING, sample_download DownloadStatus.PENDING)
           else Some (sample_download DownloadStatus.COMPLETED, sample_download DownloadStatus.COMPLETED))
   = Inr (Some
      [(''progress'',
        [(''task_id'', PyStr ''d1''), (''status'', PyStr ''pending''),
         (''progress'', PyNum 0), (''speed'', PyStr ''0 B/s''), (''eta'', PyStr ''N/A''),
         (''filename'', PyStr ''''), (''title'', PyStr ''''), (''error'', PyNone)]),
       (''progress'',
        [(''task_id'', PyStr ''d1''), (''status'', PyStr ''pending''),
         (''progress'', PyNum 0), (''speed'', PyStr ''0 B/s''), (''eta'', PyStr ''N/A''),
         (''filename'', PyStr ''''), (''title'', PyStr ''''), (''error'', PyNone)]),
       (''progress'',
        [(''task_id'', PyStr ''d1''), (''status'', PyStr ''completed''),
         (''progress'', PyNum 0), (''speed'', PyStr ''0 B/s''), (''eta'', PyStr ''N/A''),
         (''filename'', PyStr ''''), (''title'', PyStr ''''), (''error'', PyNone)])])
 \<and> compression_events (Some sample_compression)
     (\<lambda>k. if k < 2 then Some (sample_compression\<lparr>progress := 40\<rparr>, sample_compression\<lparr>progress := 40\<rparr>)
           else None)
   = Inr (Some
      [(''progress'',
        [(''task_id'', PyStr ''c1''), (''status'', PyStr ''compressing''), (''progress'', PyNum 40),
         (''eta'', PyStr ''N/A''), (''output_path'', PyStr ''/v/clip-compressed.mp4''),
         (''error'', PyNone)])])"
proof -
  let ?p = "sample_download DownloadStatus.PENDING" and ?c = "sample_download DownloadStatus.COMPLETED"
  let ?s = "sample_compression\<lparr>progress := 40\<rparr>"
  let ?dpoll = "\<lambda>k::nat. if k < 3 then Some (?p, ?p) else Some (?c, ?c)"
  let ?cpoll = "\<lambda>k::nat. if k < 2 then Some (?s, ?s) else None"
  have sp: "status ?p = DownloadStatus.PENDING" and sc: "status ?c = DownloadStatus.COMPLETED"
    by (simp_all add: sample_download_def)
  have d: "Some ?p = Some ?p \<and> 1 \<le> (3::nat)
     \<and> (\<forall>j. 1 \<le> j \<and> j < 3 \<longrightarrow>
           (\<exists>seen later. ?dpoll j = Some (seen, later)
               \<and> status later \<notin> {DownloadStatus.COMPLETED, DownloadStatus.ERROR}))
     \<and> ?dpoll 3 = Some (?c, ?c)
     \<and> status ?c \<in> {DownloadStatus.COMPLETED, DownloadStatus.ERROR}"
    using sp sc by simp
  have c: "Some sample_compression = Some sample_compression \<and> 1 \<le> (2::nat)
     \<and> (\<forall>j. 1 \<le> j \<and> j < 2 \<longrightarrow>
           (\<exists>seen later. ?cpoll j = Some (seen, later)
               \<and> status later \<notin> {CompressionStatus.COMPLETED, CompressionStatus.ERROR}))
     \<and> ?cpoll 2 = None"
    by (simp add: sample_compression_def)
  note T = event_stream_ends_at_stop_test [where dfirst = "Some ?p" and dpoll = ?dpoll
      and cfirst = "Some sample_compression" and cpoll = ?cpoll]
  from T [THEN conjunct1, THEN spec, THEN spec, THEN spec, THEN spec, THEN mp, OF d]
  obtain tasks where t: "task_events (Some ?p) ?dpoll = Inr (Some (map download_snapshot tasks))"
    "length tasks = 3" "\<forall>i<3. map_option fst (?dpoll (i + 1)) = Some (tasks ! i)"
    by blast
  from t(2) obtain x y z where xyz: "tasks = [x, y, z]"
    by (auto simp: eval_nat_numeral length_Suc_conv)
  from t(3) [THEN spec, of 0] t(3) [THEN spec, of 1] t(3) [THEN spec, of 2]
  have "tasks ! 0 = ?p" "tasks ! 1 = ?p" "tasks ! 2 = ?c"
    by simp_all
  with xyz have "tasks = [?p, ?p, ?c]"
    by simp
  with t(1) have A: "task_events (Some ?p) ?dpoll
      = Inr (Some [download_snapshot ?p, download_snapshot ?p, download_snapshot ?c])"
    by simp
  from T [THEN conjunct2, THEN conjunct2, THEN conjunct2, THEN spec, THEN spec, THEN mp, OF c]
  obtain ctasks where u:
    "compression_events (Some sample_compression) ?cpoll = Inr (Some (map compression_snapshot ctasks))"
    "length ctasks = 2 - 1" "\<forall>i<2 - 1. map_option fst (?cpoll (i + 1)) = Some (ctasks ! i)"
    by blast
  from u(2) obtain w where w: "ctasks = [w]"
    by (auto simp: length_Suc_conv)
  from u(3) [THEN spec, of 0] have "ctasks ! 0 = ?s"
    by simp
  with w have "ctasks = [?s]"
    by simp
  with u(1) have B: "compression_events (Some sample_compression) ?cpoll
      = Inr (Some [compression_snapshot ?s])"
    by simp
  show ?thesis
    unfolding A B sample_download_snapshot sample_compression_snapshot
    by simp
qed

end
